theory Spec2Isabelle
  imports Complex_Main "HOL-Library.Log_Nat"
begin

section \<open>JavaScript numbers\<close>

text \<open>
  The three revisions of the pose endpoint (\<^verbatim>\<open>src/unnamed/part_000\<close>,
  \<^verbatim>\<open>src/unnamed/part_001\<close> and \<^verbatim>\<open>src/index.js\<close>) compute with JavaScript
  numbers, which are IEEE 754 binary64 values. A finite number is carried as the real
  it denotes; \<^verbatim>\<open>Infinity\<close>, \<^verbatim>\<open>-Infinity\<close> and \<^verbatim>\<open>NaN\<close> are values of their own.
  Every arithmetic operation computes the exact real result and rounds it with \<open>fl\<close>
  to the nearest binary64 value, ties to the even significand, as the hardware does.
  The sign of zero is not carried: no operation of the endpoint tells \<^verbatim>\<open>-0\<close> from
  \<^verbatim>\<open>+0\<close> (there is no division by a computed value, and comparisons,
  \<^verbatim>\<open>Math.max\<close> against 0, \<^verbatim>\<open>toFixed\<close> and JSON output treat both alike).
\<close>

datatype jsnum = Fin real | PInf | NInf | NaN

text \<open>Rounding a real to an integer, a tie going to the even neighbour.\<close>

definition round_half_even :: "real \<Rightarrow> int" where
  "round_half_even q =
     (let f = \<lfloor>q\<rfloor>; r = q - real_of_int f
      in if r < 1 / 2 then f else if 1 / 2 < r then f + 1
         else if even f then f else f + 1)"

definition pow2 :: "int \<Rightarrow> real" where
  "pow2 e = (if 0 \<le> e then 2 ^ nat e else 1 / 2 ^ nat (- e))"

text \<open>
  The binary exponent of a real, not below the exponent \<open>-1022\<close> of the subnormal
  numbers and of zero: \<open>pow2 (binade v) \<le> \<bar>v\<bar> < pow2 (binade v + 1)\<close> for a normal
  \<open>v\<close>. A binary64 value of that exponent is a multiple of \<open>pow2 (binade v - 52)\<close>.
\<close>

definition binade :: "real \<Rightarrow> int" where
  "binade v = (if v = 0 then - 1022 else max \<lfloor>log 2 \<bar>v\<bar>\<rfloor> (- 1022))"

text \<open>
  Rounding to 53 significant bits with an unbounded exponent above, and then the
  overflow rule: a rounded magnitude of \<open>2 ^ 1024\<close> or more is an infinity.
\<close>

definition round_unbounded :: "real \<Rightarrow> real" where
  "round_unbounded v =
     (if v = 0 then 0
      else real_of_int (round_half_even (v / pow2 (binade v - 52))) * pow2 (binade v - 52))"

definition fl :: "real \<Rightarrow> jsnum" where
  "fl v =
     (let w = round_unbounded v
      in if 2 ^ 1024 \<le> w then PInf else if w \<le> - (2 ^ 1024) then NInf else Fin w)"

text \<open>The binary \<^verbatim>\<open>+\<close>, \<^verbatim>\<open>-\<close>, \<^verbatim>\<open>*\<close> and \<^verbatim>\<open>/\<close>; a zero divisor is read as \<^verbatim>\<open>+0\<close>.\<close>

fun js_add :: "jsnum \<Rightarrow> jsnum \<Rightarrow> jsnum" where
  "js_add NaN b = NaN"
| "js_add a NaN = NaN"
| "js_add (Fin a) (Fin b) = fl (a + b)"
| "js_add (Fin a) b = b"
| "js_add a (Fin b) = a"
| "js_add PInf NInf = NaN"
| "js_add NInf PInf = NaN"
| "js_add a b = a"

fun js_sub :: "jsnum \<Rightarrow> jsnum \<Rightarrow> jsnum" where
  "js_sub NaN b = NaN"
| "js_sub a NaN = NaN"
| "js_sub (Fin a) (Fin b) = fl (a - b)"
| "js_sub (Fin a) PInf = NInf"
| "js_sub (Fin a) NInf = PInf"
| "js_sub PInf PInf = NaN"
| "js_sub PInf b = PInf"
| "js_sub NInf NInf = NaN"
| "js_sub NInf b = NInf"

fun js_mul :: "jsnum \<Rightarrow> jsnum \<Rightarrow> jsnum" where
  "js_mul NaN b = NaN"
| "js_mul a NaN = NaN"
| "js_mul (Fin a) (Fin b) = fl (a * b)"
| "js_mul (Fin a) PInf = (if a = 0 then NaN else if 0 < a then PInf else NInf)"
| "js_mul (Fin a) NInf = (if a = 0 then NaN else if 0 < a then NInf else PInf)"
| "js_mul PInf (Fin b) = (if b = 0 then NaN else if 0 < b then PInf else NInf)"
| "js_mul NInf (Fin b) = (if b = 0 then NaN else if 0 < b then NInf else PInf)"
| "js_mul PInf PInf = PInf"
| "js_mul PInf NInf = NInf"
| "js_mul NInf PInf = NInf"
| "js_mul NInf NInf = PInf"

fun js_div :: "jsnum \<Rightarrow> jsnum \<Rightarrow> jsnum" where
  "js_div NaN b = NaN"
| "js_div a NaN = NaN"
| "js_div (Fin a) (Fin b) =
     (if b \<noteq> 0 then fl (a / b)
      else if 0 < a then PInf else if a < 0 then NInf else NaN)"
| "js_div (Fin a) b = Fin 0"
| "js_div PInf (Fin b) = (if b < 0 then NInf else PInf)"
| "js_div NInf (Fin b) = (if b < 0 then PInf else NInf)"
| "js_div a b = NaN"

text \<open>
  \<^verbatim>\<open>Math.sqrt\<close>, correctly rounded. \<^verbatim>\<open>v ** 2\<close>: the language leaves the precision of
  \<^verbatim>\<open>**\<close> to the engine; V8's \<^verbatim>\<open>pow\<close> returns \<^verbatim>\<open>v * v\<close> for the exponent 2, and
  that is what is modelled.
\<close>

fun js_sqrt :: "jsnum \<Rightarrow> jsnum" where
  "js_sqrt (Fin a) = (if a < 0 then NaN else fl (sqrt a))"
| "js_sqrt PInf = PInf"
| "js_sqrt NInf = NaN"
| "js_sqrt NaN = NaN"

definition js_square :: "jsnum \<Rightarrow> jsnum" where
  "js_square v = js_mul v v"

text \<open>\<^verbatim>\<open>Math.max\<close> and \<^verbatim>\<open>Math.min\<close> of two arguments.\<close>

fun js_max :: "jsnum \<Rightarrow> jsnum \<Rightarrow> jsnum" where
  "js_max NaN b = NaN"
| "js_max a NaN = NaN"
| "js_max PInf b = PInf"
| "js_max a PInf = PInf"
| "js_max NInf b = b"
| "js_max a NInf = a"
| "js_max (Fin a) (Fin b) = Fin (max a b)"

fun js_min :: "jsnum \<Rightarrow> jsnum \<Rightarrow> jsnum" where
  "js_min NaN b = NaN"
| "js_min a NaN = NaN"
| "js_min NInf b = NInf"
| "js_min a NInf = NInf"
| "js_min PInf b = b"
| "js_min a PInf = a"
| "js_min (Fin a) (Fin b) = Fin (min a b)"

text \<open>The comparisons \<^verbatim>\<open>>=\<close>, \<^verbatim>\<open><=\<close> and \<^verbatim>\<open>===\<close> on numbers.\<close>

fun js_ge :: "jsnum \<Rightarrow> jsnum \<Rightarrow> bool" where
  "js_ge NaN b = False"
| "js_ge a NaN = False"
| "js_ge PInf b = True"
| "js_ge a NInf = True"
| "js_ge (Fin a) (Fin b) = (b \<le> a)"
| "js_ge a b = False"

definition js_le :: "jsnum \<Rightarrow> jsnum \<Rightarrow> bool" where
  "js_le a b = js_ge b a"

fun js_seq :: "jsnum \<Rightarrow> jsnum \<Rightarrow> bool" where
  "js_seq NaN b = False"
| "js_seq a NaN = False"
| "js_seq a b = (a = b)"

text \<open>
  \<^verbatim>\<open>parseFloat(v.toFixed(f))\<close>: \<^verbatim>\<open>toFixed\<close> takes the exact value of the number and
  picks the integer \<open>n\<close> with \<open>n / 10 ^ f\<close> nearest to its absolute value, the larger
  one of two, and puts the sign back; from \<open>10 ^ 21\<close> on it prints the number itself,
  as it does for the infinities and \<^verbatim>\<open>NaN\<close>. \<^verbatim>\<open>parseFloat\<close> reads the decimal string
  as the nearest binary64 value.
\<close>

fun parseFloat_toFixed :: "nat \<Rightarrow> jsnum \<Rightarrow> jsnum" where
  "parseFloat_toFixed f (Fin v) =
     (if 10 ^ 21 \<le> \<bar>v\<bar> then Fin v
      else fl (sgn v * real_of_int \<lfloor>\<bar>v\<bar> * 10 ^ f + 1 / 2\<rfloor> / 10 ^ f))"
| "parseFloat_toFixed f v = v"

section \<open>Keypoints\<close>

text \<open>
  The pose estimator is external. It returns \<^verbatim>\<open>pose.keypoints\<close>, a list of
  \<^verbatim>\<open>{score, part, position: {x, y}}\<close> with a score in \<open>[0,1]\<close> and finite
  pixel coordinates: binary64 values, carried as the reals they denote.
\<close>

record position =
  pos_x :: real
  pos_y :: real

record keypoint =
  score :: real
  part :: string
  position :: position

text \<open>The object \<^verbatim>\<open>kp\<close>: from a part name to its position, started as \<^verbatim>\<open>{}\<close>.\<close>

type_synonym kp = "string \<rightharpoonup> position"

definition wanted_parts :: "string list" where
  "wanted_parts = [''nose'', ''leftWrist'', ''rightWrist'']"

text \<open>
  The loop over \<^verbatim>\<open>pose.keypoints\<close> of the two earlier revisions stores every wanted
  part; the loop of \<^verbatim>\<open>index.js\<close> first skips a point whose score is below 0.5.
\<close>

fun collect_all :: "kp \<Rightarrow> keypoint list \<Rightarrow> kp" where
  "collect_all kp [] = kp"
| "collect_all kp (point # rest) =
     collect_all
       (if part point \<in> set wanted_parts then kp(part point \<mapsto> position point) else kp)
       rest"

fun collect_scored :: "kp \<Rightarrow> keypoint list \<Rightarrow> kp" where
  "collect_scored kp [] = kp"
| "collect_scored kp (point # rest) =
     (if score point < 1 / 2 then collect_scored kp rest
      else collect_scored
        (if part point \<in> set wanted_parts then kp(part point \<mapsto> position point) else kp)
        rest)"

definition kp_part :: "keypoint list \<Rightarrow> kp" where
  "kp_part keypoints = collect_all Map.empty keypoints"

definition kp_index :: "keypoint list \<Rightarrow> kp" where
  "kp_index keypoints = collect_scored Map.empty keypoints"

section \<open>Distance helpers\<close>

text \<open>\<^verbatim>\<open>euclideanDistance\<close> of \<^verbatim>\<open>part_000\<close>, \<^verbatim>\<open>dist\<close> of the other two files.\<close>

definition euclideanDistance :: "position \<Rightarrow> position \<Rightarrow> jsnum" where
  "euclideanDistance a b =
     js_sqrt (js_add (js_square (js_sub (Fin (pos_x a)) (Fin (pos_x b))))
                     (js_square (js_sub (Fin (pos_y a)) (Fin (pos_y b)))))"

definition dist_helper :: "position \<Rightarrow> position \<Rightarrow> jsnum" where
  "dist_helper a b =
     (let dx = js_sub (Fin (pos_x a)) (Fin (pos_x b));
          dy = js_sub (Fin (pos_y a)) (Fin (pos_y b))
      in js_sqrt (js_add (js_mul dx dx) (js_mul dy dy)))"

text \<open>
  The Euclidean distance of the specification, over the reals: what the helpers compute
  up to rounding.
\<close>

definition true_distance :: "position \<Rightarrow> position \<Rightarrow> real" where
  "true_distance a b = sqrt ((pos_x a - pos_x b) ^ 2 + (pos_y a - pos_y b) ^ 2)"

section \<open>The decision of the pose endpoint\<close>

text \<open>
  Every early return of the handler with an error body is a value of \<open>error\<close>; the
  \<^verbatim>\<open>catch\<close> block, which answers 500, is \<open>PoseEstimationFailed\<close>.
\<close>

datatype error = NoseNotDetected | NoWristDetected | PoseEstimationFailed

datatype jsval = JNum jsnum | JBool bool | JStr string

type_synonym json = "(string \<times> jsval) list"

text \<open>
  The literal \<^verbatim>\<open>0.1\<close> is the binary64 value nearest to one tenth; 550 and 1500 are
  exact.
\<close>

definition ACCEPTANCE_THRESHOLD :: jsnum where
  "ACCEPTANCE_THRESHOLD = fl (1 / 10)"

definition THRESHOLD_DISTANCE_part :: real where
  "THRESHOLD_DISTANCE_part = 550"

definition THRESHOLD_DISTANCE_index :: real where
  "THRESHOLD_DISTANCE_index = 1500"

text \<open>The expression \<^verbatim>\<open>Math.max(0, 1 - d / THRESHOLD_DISTANCE)\<close> of all three files.\<close>

definition confidence_at :: "real \<Rightarrow> jsnum \<Rightarrow> jsnum" where
  "confidence_at THRESHOLD_DISTANCE d =
     js_max (Fin 0) (js_sub (Fin 1) (js_div d (Fin THRESHOLD_DISTANCE)))"

text \<open>
  The constants a request of the two earlier revisions binds after the nose check, in the
  order of the source; \<open>result_part\<close> is the object handed to \<^verbatim>\<open>res.json\<close>.
\<close>

record part_locals =
  distLeft :: jsnum
  distRight :: jsnum
  minDist :: jsnum
  closestHand :: string
  confidenceDecimal :: jsnum
  result_part :: json

definition decide_part :: "(position \<Rightarrow> position \<Rightarrow> jsnum) \<Rightarrow> kp \<Rightarrow> error + part_locals" where
  "decide_part distance kp =
     (case kp ''nose'' of
        None \<Rightarrow> Inl NoseNotDetected
      | Some nose \<Rightarrow>
          (let dl = (case kp ''leftWrist'' of
                       Some w \<Rightarrow> distance w nose | None \<Rightarrow> PInf);
               dr = (case kp ''rightWrist'' of
                       Some w \<Rightarrow> distance w nose | None \<Rightarrow> PInf);
               m = js_min dl dr;
               hand = (if js_seq m dl then ''leftWrist'' else ''rightWrist'');
               c = confidence_at THRESHOLD_DISTANCE_part m
           in Inr \<lparr>distLeft = dl, distRight = dr, minDist = m, closestHand = hand,
                   confidenceDecimal = c,
                   result_part =
                     [(''closestHand'', JStr hand),
                      (''distance'', JNum (parseFloat_toFixed 2 m)),
                      (''accepted'', JBool (js_ge c ACCEPTANCE_THRESHOLD))]\<rparr>))"

definition pose_part_000 :: "kp \<Rightarrow> error + part_locals" where
  "pose_part_000 kp = decide_part euclideanDistance kp"

definition pose_part_001 :: "kp \<Rightarrow> error + part_locals" where
  "pose_part_001 kp = decide_part dist_helper kp"

text \<open>
  \<^verbatim>\<open>index.js\<close>: the wrist check, then \<^verbatim>\<open>kp.rightWrist || kp.leftWrist\<close>. A position is
  an object, so a present wrist is truthy. Were both absent at that line, \<^verbatim>\<open>dist\<close>
  would read a property of \<^verbatim>\<open>undefined\<close> and the \<^verbatim>\<open>catch\<close> block would answer.
\<close>

definition js_or :: "'a option \<Rightarrow> 'a option \<Rightarrow> 'a option" where
  "js_or a b = (case a of Some v \<Rightarrow> Some v | None \<Rightarrow> b)"

record index_locals =
  nearestHand :: position
  d_nose :: jsnum
  confidence :: jsnum
  result_index :: json

definition pose_index :: "kp \<Rightarrow> error + index_locals" where
  "pose_index kp =
     (case kp ''nose'' of
        None \<Rightarrow> Inl NoseNotDetected
      | Some nose \<Rightarrow>
          if kp ''rightWrist'' = None \<and> kp ''leftWrist'' = None then Inl NoWristDetected
          else
            (case js_or (kp ''rightWrist'') (kp ''leftWrist'') of
               None \<Rightarrow> Inl PoseEstimationFailed
             | Some hand \<Rightarrow>
                 (let dd = dist_helper hand nose;
                      c = confidence_at THRESHOLD_DISTANCE_index dd
                  in Inr \<lparr>nearestHand = hand, d_nose = dd, confidence = c,
                          result_index =
                            [(''distance'', JNum (parseFloat_toFixed 2 dd)),
                             (''accepted'', JBool (js_ge c ACCEPTANCE_THRESHOLD)),
                             (''confidence'', JNum (parseFloat_toFixed 3 c))]\<rparr>)))"

text \<open>What the handler sends: the error, or the object \<^verbatim>\<open>result\<close>.\<close>

definition reply_part_000 :: "kp \<Rightarrow> error + json" where
  "reply_part_000 kp = map_sum id result_part (pose_part_000 kp)"

definition reply_part_001 :: "kp \<Rightarrow> error + json" where
  "reply_part_001 kp = map_sum id result_part (pose_part_001 kp)"

definition reply_index :: "kp \<Rightarrow> error + json" where
  "reply_index kp = map_sum id result_index (pose_index kp)"

text \<open>The status and the body of an error answer.\<close>

fun error_status :: "error \<Rightarrow> nat" where
  "error_status NoseNotDetected = 400"
| "error_status NoWristDetected = 400"
| "error_status PoseEstimationFailed = 500"

fun error_message :: "error \<Rightarrow> string" where
  "error_message NoseNotDetected = ''Nose not detected''"
| "error_message NoWristDetected = ''No wrist detected''"
| "error_message PoseEstimationFailed = ''Pose estimation failed''"

text \<open>A field of the answer, \<open>None\<close> when the answer is an error or has no such field.\<close>

definition reply_field :: "string \<Rightarrow> error + json \<Rightarrow> jsval option" where
  "reply_field name r = (case r of Inl e \<Rightarrow> None | Inr obj \<Rightarrow> map_of obj name)"

section \<open>Example keypoint sets\<close>

text \<open>
  The keypoint set of the specification's worked example, and others on which the
  endpoint is evaluated below. Every coordinate is a binary64 value.
\<close>

definition kp_spec_example :: kp where
  "kp_spec_example =
     [''nose'' \<mapsto> \<lparr>pos_x = 0, pos_y = 0\<rparr>,
      ''leftWrist'' \<mapsto> \<lparr>pos_x = 3, pos_y = 4\<rparr>,
      ''rightWrist'' \<mapsto> \<lparr>pos_x = 6, pos_y = 8\<rparr>]"

definition kp_nose_only :: kp where
  "kp_nose_only = [''nose'' \<mapsto> \<lparr>pos_x = 0, pos_y = 0\<rparr>]"

definition kp_wrists_only :: kp where
  "kp_wrists_only =
     [''leftWrist'' \<mapsto> \<lparr>pos_x = 3, pos_y = 4\<rparr>,
      ''rightWrist'' \<mapsto> \<lparr>pos_x = 6, pos_y = 8\<rparr>]"

definition kp_tie :: kp where
  "kp_tie =
     [''nose'' \<mapsto> \<lparr>pos_x = 0, pos_y = 0\<rparr>,
      ''leftWrist'' \<mapsto> \<lparr>pos_x = 3, pos_y = 4\<rparr>,
      ''rightWrist'' \<mapsto> \<lparr>pos_x = 4, pos_y = 3\<rparr>]"

definition kp_right_nearer :: kp where
  "kp_right_nearer =
     [''nose'' \<mapsto> \<lparr>pos_x = 0, pos_y = 0\<rparr>,
      ''leftWrist'' \<mapsto> \<lparr>pos_x = 6, pos_y = 8\<rparr>,
      ''rightWrist'' \<mapsto> \<lparr>pos_x = 3, pos_y = 4\<rparr>]"

definition kp_left_only :: kp where
  "kp_left_only =
     [''nose'' \<mapsto> \<lparr>pos_x = 0, pos_y = 0\<rparr>,
      ''leftWrist'' \<mapsto> \<lparr>pos_x = 3, pos_y = 4\<rparr>]"

text \<open>
  A left wrist farther from the nose than the right one by less than the rounding of
  the sum of squares.
\<close>

definition kp_near_tie :: kp where
  "kp_near_tie =
     [''nose'' \<mapsto> \<lparr>pos_x = 0, pos_y = 0\<rparr>,
      ''leftWrist'' \<mapsto> \<lparr>pos_x = 100, pos_y = 1 / 2 ^ 24\<rparr>,
      ''rightWrist'' \<mapsto> \<lparr>pos_x = 100, pos_y = 0\<rparr>]"

text \<open>Wrists at the distances 1350, 495, 95.25 and 0.125 from the nose.\<close>

definition kp_right_at :: "real \<Rightarrow> kp" where
  "kp_right_at v =
     [''nose'' \<mapsto> \<lparr>pos_x = 0, pos_y = 0\<rparr>, ''rightWrist'' \<mapsto> \<lparr>pos_x = v, pos_y = 0\<rparr>]"

definition kp_left_at :: "real \<Rightarrow> kp" where
  "kp_left_at v =
     [''nose'' \<mapsto> \<lparr>pos_x = 0, pos_y = 0\<rparr>, ''leftWrist'' \<mapsto> \<lparr>pos_x = v, pos_y = 0\<rparr>]"

text \<open>
  The nose at \<^verbatim>\<open>(100.1, 0)\<close> and the right wrist at \<^verbatim>\<open>(356.365, 0)\<close>, with the
  binary64 values of the two literals.
\<close>

definition kp_decimal :: kp where
  "kp_decimal =
     [''nose'' \<mapsto> \<lparr>pos_x = 3521955646092083 / 2 ^ 45, pos_y = 0\<rparr>,
      ''rightWrist'' \<mapsto> \<lparr>pos_x = 1567309844929577 / 2 ^ 42, pos_y = 0\<rparr>]"

text \<open>
  The nose at \<^verbatim>\<open>(5.2, 4.4)\<close>, the left wrist at \<^verbatim>\<open>(9.2, 1.4)\<close> and the right
  wrist at \<^verbatim>\<open>(8.2, 0.4)\<close>, with the binary64 values of the six literals.
\<close>

definition kp_decimal_pair :: kp where
  "kp_decimal_pair =
     [''nose'' \<mapsto> \<lparr>pos_x = 5854679515581645 / 2 ^ 50, pos_y = 2476979795053773 / 2 ^ 49\<rparr>,
      ''leftWrist'' \<mapsto> \<lparr>pos_x = 2589569785738035 / 2 ^ 48, pos_y = 3152519739159347 / 2 ^ 51\<rparr>,
      ''rightWrist'' \<mapsto> \<lparr>pos_x = 2308094809027379 / 2 ^ 48, pos_y = 3602879701896397 / 2 ^ 53\<rparr>]"

definition keypoints_example :: "keypoint list" where
  "keypoints_example =
     [\<lparr>score = 1 / 2, part = ''nose'', position = \<lparr>pos_x = 0, pos_y = 0\<rparr>\<rparr>,
      \<lparr>score = 99 / 100, part = ''leftEye'', position = \<lparr>pos_x = 1, pos_y = 1\<rparr>\<rparr>,
      \<lparr>score = 49 / 100, part = ''leftWrist'', position = \<lparr>pos_x = 3, pos_y = 4\<rparr>\<rparr>,
      \<lparr>score = 9 / 10, part = ''rightWrist'', position = \<lparr>pos_x = 6, pos_y = 8\<rparr>\<rparr>]"

text \<open>The endpoint after the estimator: the loop, then the decision.\<close>

definition endpoint_part_000 :: "keypoint list \<Rightarrow> error + json" where
  "endpoint_part_000 keypoints = reply_part_000 (kp_part keypoints)"

definition endpoint_part_001 :: "keypoint list \<Rightarrow> error + json" where
  "endpoint_part_001 keypoints = reply_part_001 (kp_part keypoints)"

definition endpoint_index :: "keypoint list \<Rightarrow> error + json" where
  "endpoint_index keypoints = reply_index (kp_index keypoints)"

section \<open>Rounding\<close>

lemma round_half_even_cases:
  "round_half_even q = \<lfloor>q\<rfloor> \<or> round_half_even q = \<lfloor>q\<rfloor> + 1"
  by (simp add: round_half_even_def Let_def)

lemma round_half_even_of_int [simp]: "round_half_even (real_of_int k) = k"
  by (simp add: round_half_even_def)

lemma round_half_even_mono:
  assumes "a \<le> b"
  shows "round_half_even a \<le> round_half_even b"
proof (cases "\<lfloor>a\<rfloor> = \<lfloor>b\<rfloor>")
  case True
  have "a - real_of_int \<lfloor>a\<rfloor> \<le> b - real_of_int \<lfloor>b\<rfloor>"
    using assms True by simp
  then show ?thesis
    using True by (auto simp: round_half_even_def Let_def)
next
  case False
  then have "\<lfloor>a\<rfloor> < \<lfloor>b\<rfloor>"
    using floor_mono [OF assms] by linarith
  moreover have "round_half_even a \<le> \<lfloor>a\<rfloor> + 1"
    using round_half_even_cases [of a] by linarith
  moreover have "\<lfloor>b\<rfloor> \<le> round_half_even b"
    using round_half_even_cases [of b] by linarith
  ultimately show ?thesis by linarith
qed

lemma round_half_even_near:
  "\<bar>real_of_int (round_half_even q) - q\<bar> \<le> 1 / 2"
proof -
  have "real_of_int \<lfloor>q\<rfloor> \<le> q" and "q < real_of_int \<lfloor>q\<rfloor> + 1"
    by linarith+
  then show ?thesis
    by (auto simp: round_half_even_def Let_def)
qed

lemma round_half_even_eqI:
  assumes "\<bar>q - real_of_int n\<bar> < 1 / 2"
  shows "round_half_even q = n"
proof -
  have "\<bar>real_of_int (round_half_even q) - real_of_int n\<bar> < 1"
    using round_half_even_near [of q] assms by linarith
  then have "\<bar>round_half_even q - n\<bar> < 1"
    by (metis of_int_abs of_int_diff of_int_less_1_iff)
  then show ?thesis by linarith
qed

lemma round_half_even_minus: "round_half_even (- q) = - round_half_even q"
proof (cases "q = real_of_int \<lfloor>q\<rfloor>")
  case True
  then obtain k where "q = real_of_int k" by blast
  then show ?thesis
    by (metis of_int_minus round_half_even_of_int)
next
  case False
  then have "real_of_int \<lfloor>q\<rfloor> < q" and "q < real_of_int \<lfloor>q\<rfloor> + 1"
    by linarith+
  then have neg: "\<lfloor>- q\<rfloor> = - \<lfloor>q\<rfloor> - 1"
    by (intro floor_unique) (simp_all, linarith+)
  have r: "- q - real_of_int \<lfloor>- q\<rfloor> = 1 - (q - real_of_int \<lfloor>q\<rfloor>)"
    by (simp add: neg)
  have ev: "even \<lfloor>- q\<rfloor> \<longleftrightarrow> odd \<lfloor>q\<rfloor>"
    by (simp add: neg)
  show ?thesis
    unfolding round_half_even_def Let_def r ev
    by (auto simp: neg)
qed

lemma pow2_powr: "pow2 e = 2 powr real_of_int e"
  by (simp add: pow2_def powr_real_of_int field_simps)

lemma pow2_pos [simp]: "0 < pow2 e"
  by (simp add: pow2_powr)

lemma pow2_nonneg [simp]: "0 \<le> pow2 e"
  by (simp add: pow2_powr)

lemma pow2_neq0 [simp]: "pow2 e \<noteq> 0"
  using pow2_pos [of e] by linarith

lemma pow2_not_le0 [simp]: "\<not> pow2 e \<le> 0"
  using pow2_pos [of e] by linarith

lemma pow2_add: "pow2 (a + b) = pow2 a * pow2 b"
  by (simp add: pow2_powr powr_add)

lemma pow2_nat: "0 \<le> k \<Longrightarrow> pow2 k = real_of_int (2 ^ nat k)"
  by (simp add: pow2_def)

lemma pow2_mono: "a \<le> b \<Longrightarrow> pow2 a \<le> pow2 b"
  by (simp add: pow2_powr)

lemma pow2_split: "e \<le> k \<Longrightarrow> pow2 k = real_of_int (2 ^ nat (k - e)) * pow2 e"
  using pow2_add [of "k - e" e] pow2_nat [of "k - e"] by simp

lemma binade_minus [simp]: "binade (- v) = binade v"
  by (simp add: binade_def)

lemma binade_ge: "- 1022 \<le> binade v"
  by (simp add: binade_def)

lemma binade_upper:
  assumes "v \<noteq> 0"
  shows "\<bar>v\<bar> < pow2 (binade v + 1)"
proof -
  have pos: "0 < \<bar>v\<bar>" using assms by simp
  have "\<bar>v\<bar> < 2 powr (real_of_int \<lfloor>log 2 \<bar>v\<bar>\<rfloor> + 1)"
    using floor_log_eq_powr_iff [of "\<bar>v\<bar>" 2 "\<lfloor>log 2 \<bar>v\<bar>\<rfloor>"] pos by simp
  also have "\<dots> = pow2 (\<lfloor>log 2 \<bar>v\<bar>\<rfloor> + 1)"
    by (simp add: pow2_powr)
  also have "\<dots> \<le> pow2 (binade v + 1)"
    using assms by (intro pow2_mono) (simp add: binade_def)
  finally show ?thesis .
qed

lemma binade_lower:
  assumes "v \<noteq> 0" and "- 1022 < binade v"
  shows "pow2 (binade v) \<le> \<bar>v\<bar>"
proof -
  have pos: "0 < \<bar>v\<bar>" using assms by simp
  have eq: "binade v = \<lfloor>log 2 \<bar>v\<bar>\<rfloor>"
    using assms by (simp add: binade_def max_def split: if_splits)
  have "2 powr real_of_int \<lfloor>log 2 \<bar>v\<bar>\<rfloor> \<le> \<bar>v\<bar>"
    using floor_log_eq_powr_iff [of "\<bar>v\<bar>" 2 "\<lfloor>log 2 \<bar>v\<bar>\<rfloor>"] pos by simp
  then show ?thesis
    by (simp add: eq pow2_powr)
qed

lemma binade_eqI:
  assumes "pow2 E \<le> \<bar>v\<bar>" and "\<bar>v\<bar> < pow2 (E + 1)" and "- 1022 \<le> E"
  shows "binade v = E"
proof -
  have pos: "0 < \<bar>v\<bar>"
    using assms(1) pow2_pos [of E] by linarith
  have "\<lfloor>log 2 \<bar>v\<bar>\<rfloor> = E"
    using floor_log_eq_powr_iff [of "\<bar>v\<bar>" 2 E] pos assms(1,2) by (simp add: pow2_powr)
  then show ?thesis
    using assms(3) pos by (simp add: binade_def)
qed

lemma binade_subnormal:
  assumes "\<bar>v\<bar> < pow2 (- 1022)" and "v \<noteq> 0"
  shows "binade v = - 1022"
proof (rule ccontr)
  assume "binade v \<noteq> - 1022"
  then have gt: "- 1022 < binade v"
    using binade_ge [of v] by linarith
  from binade_lower [OF assms(2) gt] have "pow2 (binade v) \<le> \<bar>v\<bar>" .
  moreover have "pow2 (- 1022) \<le> pow2 (binade v)"
    by (rule pow2_mono) (rule binade_ge)
  ultimately show False using assms by linarith
qed

lemma binade_mono:
  assumes "\<bar>a\<bar> \<le> \<bar>b\<bar>" and "a \<noteq> 0"
  shows "binade a \<le> binade b"
proof -
  have "log 2 \<bar>a\<bar> \<le> log 2 \<bar>b\<bar>"
    using assms by simp
  then have "\<lfloor>log 2 \<bar>a\<bar>\<rfloor> \<le> \<lfloor>log 2 \<bar>b\<bar>\<rfloor>"
    by (rule floor_mono)
  moreover have "b \<noteq> 0"
    using assms by auto
  ultimately show ?thesis
    using assms(2) by (simp add: binade_def)
qed

text \<open>
  The exponent computed on integers, as a code equation: \<open>\<bar>v\<bar>\<close> is scaled by
  \<open>2 ^ 1100\<close>, which leaves an integer part of at least 1 to every number that is not
  below the subnormal range, and the bits of that integer part are counted. With it the
  rounding and every operation but the square root evaluate on rational arguments.
\<close>

lemma floor_log2_floor:
  assumes "1 \<le> w"
  shows "\<lfloor>log 2 (real_of_int \<lfloor>w\<rfloor>)\<rfloor> = \<lfloor>log 2 w\<rfloor>"
proof -
  define k where "k = \<lfloor>log 2 w\<rfloor>"
  have w: "0 < w" using assms by simp
  have "0 \<le> log 2 w" using assms by simp
  then have k0: "0 \<le> k" by (simp add: k_def)
  have b: "2 powr real_of_int k \<le> w" "w < 2 powr (real_of_int k + 1)"
    using floor_log_eq_powr_iff [of w 2 k] w by (simp_all add: k_def)
  have p: "2 powr real_of_int k = real_of_int (2 ^ nat k)"
    using k0 by (simp add: powr_real_of_int)
  have "real_of_int (2 ^ nat k) \<le> w" using b(1) p by simp
  then have "2 ^ nat k \<le> \<lfloor>w\<rfloor>" by (simp add: le_floor_iff)
  then have lo: "2 powr real_of_int k \<le> real_of_int \<lfloor>w\<rfloor>"
    unfolding p by (simp only: of_int_le_iff)
  have hi: "real_of_int \<lfloor>w\<rfloor> < 2 powr (real_of_int k + 1)"
    using b(2) of_int_floor_le [of w] by linarith
  have "0 < (2 :: real) powr real_of_int k"
    by simp
  then have "0 < real_of_int \<lfloor>w\<rfloor>"
    using lo by linarith
  then show ?thesis
    using floor_log_eq_powr_iff [of "real_of_int \<lfloor>w\<rfloor>" 2 k] lo hi by (simp add: k_def)
qed

lemma binade_scaled:
  assumes c: "c = pow2 1100"
  shows "binade v = max (int (floorlog 2 (nat \<lfloor>\<bar>v\<bar> * c\<rfloor>)) - 1101) (- 1022)"
proof (cases "\<bar>v\<bar> * c < 1")
  case True
  then have z: "nat \<lfloor>\<bar>v\<bar> * c\<rfloor> = 0"
    by (simp add: floor_less_iff)
  have r: "max (int (floorlog 2 (nat \<lfloor>\<bar>v\<bar> * c\<rfloor>)) - 1101) (- 1022) = - 1022"
    unfolding z by (simp add: floorlog_def)
  show ?thesis
  proof (cases "v = 0")
    case True
    then show ?thesis unfolding r by (simp add: binade_def)
  next
    case False
    have inv: "pow2 1100 * pow2 (- 1100) = 1"
      using pow2_add [of 1100 "- 1100"] by (simp add: pow2_def)
    have "\<bar>v\<bar> * c * pow2 (- 1100) < 1 * pow2 (- 1100)"
      using True by (intro mult_strict_right_mono) simp_all
    then have "\<bar>v\<bar> < pow2 (- 1100)"
      using inv by (simp add: c mult.assoc)
    also have "\<dots> \<le> pow2 (- 1022)"
      by (rule pow2_mono) simp
    finally have "\<bar>v\<bar> < pow2 (- 1022)" .
    from binade_subnormal [OF this False] show ?thesis
      unfolding r .
  qed
next
  case False
  define w where "w = \<bar>v\<bar> * c"
  have cpos: "0 < c" by (simp add: c)
  have w1: "1 \<le> w" using False by (simp add: w_def)
  then have v0: "v \<noteq> 0" by (auto simp: w_def)
  have m: "0 < nat \<lfloor>w\<rfloor>" using w1 by simp
  have "log 2 c = log 2 (2 powr real_of_int 1100)"
    by (simp only: c pow2_powr)
  also have "\<dots> = real_of_int 1100"
    by (rule log_powr_cancel) simp_all
  finally have "log 2 c = 1100"
    by simp
  then have "log 2 w = log 2 \<bar>v\<bar> + 1100"
    using v0 cpos by (simp add: w_def log_mult)
  then have fw: "\<lfloor>log 2 w\<rfloor> = \<lfloor>log 2 \<bar>v\<bar>\<rfloor> + 1100"
    by simp
  have "0 \<le> log 2 w" using w1 by simp
  then have nn: "0 \<le> \<lfloor>log 2 w\<rfloor>" by simp
  have "real (nat \<lfloor>w\<rfloor>) = real_of_int \<lfloor>w\<rfloor>"
    using w1 by simp
  then have "int (floorlog 2 (nat \<lfloor>w\<rfloor>)) = \<lfloor>log 2 w\<rfloor> + 1"
    using m nn floor_log2_floor [OF w1] by (simp add: floorlog_def)
  then have "int (floorlog 2 (nat \<lfloor>\<bar>v\<bar> * c\<rfloor>)) - 1101 = \<lfloor>log 2 \<bar>v\<bar>\<rfloor>"
    using fw by (simp add: w_def)
  then show ?thesis
    using v0 by (simp only: binade_def if_False)
qed

lemma binade_code [code]:
  "binade v = max (bitlen \<lfloor>\<bar>v\<bar> * 2 ^ 1100\<rfloor> - 1101) (- 1022)"
  unfolding bitlen_def by (rule binade_scaled) (simp add: pow2_def)

text \<open>Rounding stays on the right side of every multiple of the unit in the last place.\<close>

lemma round_unbounded_le_grid:
  assumes "v \<noteq> 0" and "v \<le> real_of_int m * pow2 (binade v - 52)"
  shows "round_unbounded v \<le> real_of_int m * pow2 (binade v - 52)"
proof -
  have "v / pow2 (binade v - 52) \<le> real_of_int m"
    using assms(2) by (simp add: pos_divide_le_eq)
  from round_half_even_mono [OF this]
  have "round_half_even (v / pow2 (binade v - 52)) \<le> m" by simp
  then have "real_of_int (round_half_even (v / pow2 (binade v - 52))) \<le> real_of_int m"
    by simp
  then show ?thesis
    using assms(1) by (simp add: round_unbounded_def)
qed

lemma round_unbounded_ge_grid:
  assumes "v \<noteq> 0" and "real_of_int m * pow2 (binade v - 52) \<le> v"
  shows "real_of_int m * pow2 (binade v - 52) \<le> round_unbounded v"
proof -
  have "real_of_int m \<le> v / pow2 (binade v - 52)"
    using assms(2) by (simp add: pos_le_divide_eq)
  from round_half_even_mono [OF this]
  have "m \<le> round_half_even (v / pow2 (binade v - 52))" by simp
  then have "real_of_int m \<le> real_of_int (round_half_even (v / pow2 (binade v - 52)))"
    by simp
  then show ?thesis
    using assms(1) by (simp add: round_unbounded_def)
qed

lemma round_unbounded_minus: "round_unbounded (- v) = - round_unbounded v"
  by (simp add: round_unbounded_def round_half_even_minus)

lemma round_unbounded_nonneg:
  assumes "0 \<le> v"
  shows "0 \<le> round_unbounded v"
proof (cases "v = 0")
  case True
  then show ?thesis by (simp add: round_unbounded_def)
next
  case False
  have "real_of_int 0 * pow2 (binade v - 52) \<le> v" using assms by simp
  from round_unbounded_ge_grid [OF False this] show ?thesis by simp
qed

lemma round_unbounded_le_pow2:
  assumes "0 < v" and "v \<le> pow2 k" and "binade v - 52 \<le> k"
  shows "round_unbounded v \<le> pow2 k"
proof -
  have "v \<noteq> 0" using assms(1) by simp
  moreover have "v \<le> real_of_int (2 ^ nat (k - (binade v - 52))) * pow2 (binade v - 52)"
    using assms(2) pow2_split [OF assms(3)] by simp
  ultimately show ?thesis
    using round_unbounded_le_grid pow2_split [OF assms(3)] by metis
qed

lemma round_unbounded_ge_pow2:
  assumes "0 < v" and "pow2 k \<le> v" and "binade v - 52 \<le> k"
  shows "pow2 k \<le> round_unbounded v"
proof -
  have "v \<noteq> 0" using assms(1) by simp
  moreover have "real_of_int (2 ^ nat (k - (binade v - 52))) * pow2 (binade v - 52) \<le> v"
    using assms(2) pow2_split [OF assms(3)] by simp
  ultimately show ?thesis
    using round_unbounded_ge_grid pow2_split [OF assms(3)] by metis
qed

lemma round_unbounded_mono_pos:
  assumes "0 < a" and "a \<le> b"
  shows "round_unbounded a \<le> round_unbounded b"
proof -
  have a0: "a \<noteq> 0" and b0: "b \<noteq> 0" and bpos: "0 < b"
    using assms by simp_all
  have le: "binade a \<le> binade b"
    using binade_mono [of a b] assms by simp
  show ?thesis
  proof (cases "binade a = binade b")
    case True
    have "a / pow2 (binade b - 52) \<le> b / pow2 (binade b - 52)"
      using assms(2) by (intro divide_right_mono) simp_all
    from round_half_even_mono [OF this]
    have "real_of_int (round_half_even (a / pow2 (binade b - 52)))
        \<le> real_of_int (round_half_even (b / pow2 (binade b - 52)))"
      by simp
    then show ?thesis
      using a0 b0 True by (simp add: round_unbounded_def)
  next
    case False
    then have lt: "binade a < binade b" using le by simp
    then have "- 1022 < binade b" using binade_ge [of a] by linarith
    from binade_lower [OF b0 this] bpos have lowb: "pow2 (binade b) \<le> b" by simp
    have "a < pow2 (binade a + 1)"
      using binade_upper [OF a0] assms(1) by simp
    then have "round_unbounded a \<le> pow2 (binade a + 1)"
      using round_unbounded_le_pow2 [of a "binade a + 1"] assms(1) by simp
    also have "\<dots> \<le> pow2 (binade b)"
      by (rule pow2_mono) (use lt in simp)
    also have "\<dots> \<le> round_unbounded b"
      using round_unbounded_ge_pow2 [of b "binade b"] bpos lowb by simp
    finally show ?thesis .
  qed
qed

lemma round_unbounded_mono:
  assumes "a \<le> b"
  shows "round_unbounded a \<le> round_unbounded b"
proof -
  consider "0 < a" | "a \<le> 0" "0 \<le> b" | "b < 0" by linarith
  then show ?thesis
  proof cases
    case 1
    then show ?thesis using assms by (rule round_unbounded_mono_pos)
  next
    case 2
    have "round_unbounded a \<le> 0"
      using round_unbounded_nonneg [of "- a"] 2(1) by (simp add: round_unbounded_minus)
    moreover have "0 \<le> round_unbounded b"
      using 2(2) by (rule round_unbounded_nonneg)
    ultimately show ?thesis by linarith
  next
    case 3
    have "round_unbounded (- b) \<le> round_unbounded (- a)"
      using round_unbounded_mono_pos [of "- b" "- a"] 3 assms by simp
    then show ?thesis
      by (simp add: round_unbounded_minus)
  qed
qed

lemma fl_mono:
  assumes "a \<le> b"
  shows "js_le (fl a) (fl b)"
  using round_unbounded_mono [OF assms]
  by (auto simp: fl_def Let_def js_le_def)

lemma fl_Fin_iff:
  "fl v = Fin w \<longleftrightarrow> round_unbounded v = w \<and> \<bar>w\<bar> < 2 ^ 1024"
  by (auto simp: fl_def Let_def)

lemma fl_zero [simp]: "fl 0 = Fin 0"
  by (simp add: fl_def round_unbounded_def)

lemma round_unbounded_eqI:
  assumes "pow2 E \<le> \<bar>v\<bar>" and "\<bar>v\<bar> < pow2 (E + 1)" and "- 1022 \<le> E"
    and "\<bar>v / pow2 (E - 52) - real_of_int n\<bar> < 1 / 2"
  shows "round_unbounded v = real_of_int n * pow2 (E - 52)"
proof -
  have b: "binade v = E"
    using assms(1-3) by (rule binade_eqI)
  have "v \<noteq> 0"
    using assms(1) by auto
  moreover have "round_half_even (v / pow2 (E - 52)) = n"
    using assms(4) by (rule round_half_even_eqI)
  ultimately show ?thesis
    by (simp add: round_unbounded_def b)
qed

lemma fl_eqI:
  assumes "pow2 E \<le> \<bar>v\<bar>" and "\<bar>v\<bar> < pow2 (E + 1)" and "- 1022 \<le> E"
    and "\<bar>v / pow2 (E - 52) - real_of_int n\<bar> < 1 / 2"
    and "\<bar>real_of_int n * pow2 (E - 52)\<bar> < 2 ^ 1024"
  shows "fl v = Fin (real_of_int n * pow2 (E - 52))"
  using round_unbounded_eqI [OF assms(1-4)] assms(5) by (simp add: fl_Fin_iff)

lemma round_unbounded_exact:
  assumes "\<bar>k\<bar> < 2 ^ 53" and "- 1074 \<le> e"
  shows "round_unbounded (real_of_int k * pow2 e) = real_of_int k * pow2 e"
proof (cases "k = 0")
  case True
  then show ?thesis by (simp add: round_unbounded_def)
next
  case False
  define v where "v = real_of_int k * pow2 e"
  have v0: "v \<noteq> 0"
    using False by (simp add: v_def)
  have "\<bar>v\<bar> = real_of_int \<bar>k\<bar> * pow2 e"
    by (simp add: v_def abs_mult)
  also have "\<dots> < real_of_int (2 ^ 53) * pow2 e"
    using assms(1) by (intro mult_strict_right_mono) simp_all
  also have "\<dots> = pow2 (e + 53)"
    using pow2_split [of e "e + 53"] by simp
  finally have up: "\<bar>v\<bar> < pow2 (e + 53)" .
  have le: "binade v - 52 \<le> e"
  proof (cases "- 1022 < binade v")
    case True
    from binade_lower [OF v0 True] up have "pow2 (binade v) < pow2 (e + 53)"
      by linarith
    then have "binade v < e + 53"
      using pow2_mono [of "e + 53" "binade v"] by (cases "binade v < e + 53") auto
    then show ?thesis by linarith
  next
    case False
    then have "binade v = - 1022" using binade_ge [of v] by linarith
    then show ?thesis using assms(2) by linarith
  qed
  define j where "j = k * 2 ^ nat (e - (binade v - 52))"
  have "pow2 e = real_of_int (2 ^ nat (e - (binade v - 52))) * pow2 (binade v - 52)"
    using le by (rule pow2_split)
  then have vj: "v = real_of_int j * pow2 (binade v - 52)"
    by (simp add: v_def j_def)
  then have "v / pow2 (binade v - 52) = real_of_int j"
    by (metis nonzero_mult_div_cancel_right pow2_pos less_irrefl)
  then have "round_half_even (v / pow2 (binade v - 52)) = j"
    by simp
  then have "round_unbounded v = real_of_int j * pow2 (binade v - 52)"
    using v0 by (simp add: round_unbounded_def)
  then show ?thesis
    using vj by (simp add: v_def)
qed

lemma fl_exact:
  assumes "\<bar>k\<bar> < 2 ^ 53" and "- 1074 \<le> e" and "\<bar>real_of_int k * pow2 e\<bar> < 2 ^ 1024"
  shows "fl (real_of_int k * pow2 e) = Fin (real_of_int k * pow2 e)"
  using round_unbounded_exact [OF assms(1,2)] assms(3) by (simp add: fl_Fin_iff)

lemma fl_int:
  assumes "\<bar>k\<bar> < 2 ^ 53"
  shows "fl (real_of_int k) = Fin (real_of_int k)"
proof -
  have "\<bar>real_of_int k\<bar> < real_of_int (2 ^ 53)"
    using assms by (metis of_int_abs of_int_less_iff)
  then have "\<bar>real_of_int k * pow2 0\<bar> < 2 ^ 1024"
    by (simp add: pow2_def)
  from fl_exact [OF assms _ this] show ?thesis
    by (simp add: pow2_def)
qed

lemma pow2_half: "pow2 (k - 1) = pow2 k / 2"
  using pow2_add [of "k - 1" 1] by (simp add: pow2_def)

lemma round_unbounded_error:
  assumes "v \<noteq> 0"
  shows "\<bar>round_unbounded v - v\<bar> \<le> pow2 (binade v - 53)"
proof -
  define u where "u = pow2 (binade v - 52)"
  define n where "n = real_of_int (round_half_even (v / u))"
  have u: "0 < u" by (simp add: u_def)
  have ru: "round_unbounded v = n * u"
    using assms by (simp add: round_unbounded_def u_def n_def)
  have "\<bar>n - v / u\<bar> \<le> 1 / 2"
    unfolding n_def by (rule round_half_even_near)
  then have "\<bar>n - v / u\<bar> * u \<le> 1 / 2 * u"
    using u by (intro mult_right_mono) simp_all
  moreover have "\<bar>n - v / u\<bar> * u = \<bar>(n - v / u) * u\<bar>"
    using u by (intro abs_mult_pos) simp
  moreover have "(n - v / u) * u = n * u - v"
    using u by (simp add: left_diff_distrib)
  moreover have "1 / 2 * u = pow2 (binade v - 53)"
    using pow2_half [of "binade v - 52"] by (simp add: u_def)
  ultimately have "\<bar>n * u - v\<bar> \<le> pow2 (binade v - 53)"
    by metis
  then show ?thesis
    by (simp only: ru)
qed

lemma fl_evalI:
  assumes "pow2 E \<le> \<bar>v\<bar>" and "\<bar>v\<bar> < pow2 (E + 1)" and "- 1022 \<le> E"
    and "round_half_even (v / pow2 (E - 52)) = n"
    and "\<bar>real_of_int n * pow2 (E - 52)\<bar> < 2 ^ 1024"
  shows "fl v = Fin (real_of_int n * pow2 (E - 52))"
proof -
  have b: "binade v = E"
    using assms(1-3) by (rule binade_eqI)
  have "v \<noteq> 0"
    using assms(1) by auto
  then have "round_unbounded v = real_of_int n * pow2 (E - 52)"
    using assms(4) by (simp add: round_unbounded_def b)
  then show ?thesis
    using assms(5) by (simp add: fl_Fin_iff)
qed

lemma fl_one [simp]: "fl 1 = Fin 1"
  using fl_int [of 1] by simp

lemma fl_not_NaN [simp]: "fl v \<noteq> NaN"
  by (simp add: fl_def Let_def)

lemma js_ge_Fin_iff: "js_ge v (Fin c) \<longleftrightarrow> v = PInf \<or> (\<exists>r. c \<le> r \<and> v = Fin r)"
  by (cases v) simp_all

lemma js_le_Fin_iff: "js_le v (Fin c) \<longleftrightarrow> v = NInf \<or> (\<exists>r. r \<le> c \<and> v = Fin r)"
  by (cases v) (simp_all add: js_le_def)

lemma fl_ge:
  assumes "real_of_int k \<le> v" and "\<bar>k\<bar> < 2 ^ 53"
  shows "js_ge (fl v) (Fin (real_of_int k))"
  using fl_mono [OF assms(1)] fl_int [OF assms(2)] by (simp add: js_le_def)

lemma fl_le:
  assumes "v \<le> real_of_int k" and "\<bar>k\<bar> < 2 ^ 53"
  shows "js_le (fl v) (Fin (real_of_int k))"
  using fl_mono [OF assms(1)] fl_int [OF assms(2)] by simp

lemma fl_nonneg: "0 \<le> v \<Longrightarrow> js_ge (fl v) (Fin 0)"
  using fl_ge [of 0 v] by simp

lemma fl_nonpos: "v \<le> 0 \<Longrightarrow> js_le (fl v) (Fin 0)"
  using fl_le [of v 0] by simp

lemma fl_ge_one: "1 \<le> v \<Longrightarrow> js_ge (fl v) (Fin 1)"
  using fl_ge [of 1 v] by simp

lemma binade_unit:
  assumes "v \<noteq> 0" and "\<bar>v\<bar> \<le> 1"
  shows "binade v \<le> 0"
proof (rule ccontr)
  assume "\<not> binade v \<le> 0"
  then have pos: "1 \<le> binade v" by linarith
  then have "- 1022 < binade v" by linarith
  from binade_lower [OF assms(1) this] have "pow2 (binade v) \<le> \<bar>v\<bar>" .
  moreover have "pow2 1 \<le> pow2 (binade v)"
    using pos by (rule pow2_mono)
  moreover have "pow2 1 = 2" by (simp add: pow2_def)
  ultimately show False using assms(2) by linarith
qed

lemma fl_unit:
  assumes "0 \<le> v" and "v \<le> 1"
  shows "\<exists>w. fl v = Fin w \<and> 0 \<le> w \<and> w \<le> 1 \<and> \<bar>w - v\<bar> \<le> 1 / 2 ^ 53"
proof -
  have one: "round_unbounded 1 = 1"
    using round_unbounded_exact [of 1 0] by (simp add: pow2_def)
  have lo: "0 \<le> round_unbounded v"
    using assms(1) by (rule round_unbounded_nonneg)
  have hi: "round_unbounded v \<le> 1"
    using round_unbounded_mono [OF assms(2)] one by simp
  have err: "\<bar>round_unbounded v - v\<bar> \<le> 1 / 2 ^ 53"
  proof (cases "v = 0")
    case True
    then show ?thesis by (simp add: round_unbounded_def)
  next
    case False
    have "binade v - 53 \<le> - 53"
      using binade_unit [OF False] assms by simp
    then have "pow2 (binade v - 53) \<le> pow2 (- 53)"
      by (rule pow2_mono)
    moreover have "pow2 (- 53) = 1 / 2 ^ 53"
      by (simp add: pow2_def)
    ultimately show ?thesis
      using round_unbounded_error [OF False] by linarith
  qed
  have "fl v = Fin (round_unbounded v)"
    using lo hi by (simp add: fl_Fin_iff)
  then show ?thesis
    using lo hi err by blast
qed

subsection \<open>Distances\<close>

lemma euclideanDistance_dist_helper: "euclideanDistance a b = dist_helper a b"
  by (simp add: euclideanDistance_def dist_helper_def js_square_def Let_def)

lemma pose_part_000_001: "pose_part_000 kp = pose_part_001 kp"
proof -
  have "euclideanDistance = dist_helper"
    by (intro ext) (rule euclideanDistance_dist_helper)
  then show ?thesis
    by (simp add: pose_part_000_def pose_part_001_def)
qed

lemma js_mul_self_nonneg:
  assumes "v \<noteq> NaN"
  shows "js_ge (js_mul v v) (Fin 0)"
  using assms by (cases v) (simp_all add: fl_nonneg)

lemma js_add_nonneg:
  assumes "js_ge a (Fin 0)" and "js_ge b (Fin 0)"
  shows "js_ge (js_add a b) (Fin 0)"
  using assms by (cases a; cases b) (simp_all add: fl_nonneg)

lemma js_sqrt_nonneg:
  assumes "js_ge a (Fin 0)"
  shows "js_ge (js_sqrt a) (Fin 0)"
  using assms by (cases a) (simp_all add: fl_nonneg)

lemma dist_helper_nonneg: "js_ge (dist_helper a b) (Fin 0)"
  unfolding dist_helper_def Let_def
  by (intro js_sqrt_nonneg js_add_nonneg js_mul_self_nonneg) simp_all

subsection \<open>The confidence\<close>

lemma confidence_at_beyond:
  assumes "0 < T" and "T \<le> dd"
  shows "confidence_at T (Fin dd) = Fin 0"
proof -
  have "1 \<le> dd / T"
    using assms by simp
  from fl_ge_one [OF this] consider "fl (dd / T) = PInf"
    | r where "1 \<le> r" "fl (dd / T) = Fin r"
    by (auto simp: js_ge_Fin_iff)
  then show ?thesis
  proof cases
    case 1
    then show ?thesis using assms(1) by (simp add: confidence_at_def)
  next
    case 2
    have "js_le (fl (1 - r)) (Fin 0)"
      using 2(1) by (intro fl_nonpos) simp
    then show ?thesis
      using assms(1) 2(2) by (auto simp: confidence_at_def js_le_Fin_iff)
  qed
qed

lemma confidence_at_PInf: "0 < T \<Longrightarrow> confidence_at T PInf = Fin 0"
  by (simp add: confidence_at_def)

lemma confidence_at_zero: "0 < T \<Longrightarrow> confidence_at T (Fin 0) = Fin 1"
  by (simp add: confidence_at_def)

lemma confidence_at_near:
  assumes "0 < T" and "0 \<le> dd" and "dd \<le> T"
  shows "\<exists>c. confidence_at T (Fin dd) = Fin c \<and> 0 \<le> c \<and> c \<le> 1
           \<and> \<bar>c - (1 - dd / T)\<bar> \<le> 1 / 2 ^ 52"
proof -
  have "0 \<le> dd / T" and "dd / T \<le> 1"
    using assms by simp_all
  from fl_unit [OF this] obtain q where
    q: "fl (dd / T) = Fin q" "0 \<le> q" "q \<le> 1" "\<bar>q - dd / T\<bar> \<le> 1 / 2 ^ 53"
    by blast
  have "0 \<le> 1 - q" and "1 - q \<le> 1"
    using q(2,3) by simp_all
  from fl_unit [OF this] obtain c where
    c: "fl (1 - q) = Fin c" "0 \<le> c" "c \<le> 1" "\<bar>c - (1 - q)\<bar> \<le> 1 / 2 ^ 53"
    by blast
  have "confidence_at T (Fin dd) = Fin c"
    using assms(1) q(1) c(1,2) by (simp add: confidence_at_def)
  moreover have "\<bar>c - (1 - dd / T)\<bar> \<le> 1 / 2 ^ 52"
  proof -
    have "\<bar>c - (1 - dd / T)\<bar> \<le> \<bar>c - (1 - q)\<bar> + \<bar>q - dd / T\<bar>"
      by linarith
    also have "\<dots> \<le> 1 / 2 ^ 53 + 1 / 2 ^ 53"
      using q(4) c(4) by (rule add_mono [rotated])
    also have "\<dots> = (1 :: real) / 2 ^ 52"
      by simp
    finally show ?thesis .
  qed
  ultimately show ?thesis
    using c(2,3) by blast
qed

lemma js_div_mono:
  assumes "0 < T" and "js_le a b"
  shows "js_le (js_div a (Fin T)) (js_div b (Fin T))"
proof -
  have fin: "js_le (fl (x / T)) (fl (y / T))" if "x \<le> y" for x y
    using that assms(1) by (intro fl_mono divide_right_mono) simp_all
  have top: "js_le (fl x) PInf" and bot: "js_le NInf (fl x)" for x
    by (cases "fl x"; simp add: js_le_def)+
  show ?thesis
    using assms fin top bot
    by (cases a; cases b) (simp_all add: js_le_def)
qed

lemma js_sub_one_antimono:
  assumes "js_le a b"
  shows "js_le (js_sub (Fin 1) b) (js_sub (Fin 1) a)"
proof -
  have fin: "js_le (fl (1 - y)) (fl (1 - x))" if "x \<le> y" for x y
    using that by (intro fl_mono) simp
  have top: "js_le (fl x) PInf" and bot: "js_le NInf (fl x)" for x
    by (cases "fl x"; simp add: js_le_def)+
  show ?thesis
    using assms fin top bot
    by (cases a; cases b) (simp_all add: js_le_def)
qed

lemma js_max_zero_mono:
  assumes "js_le a b"
  shows "js_le (js_max (Fin 0) a) (js_max (Fin 0) b)"
  using assms by (cases a; cases b) (simp_all add: js_le_def)

subsection \<open>The handlers\<close>

lemma pose_index_InrD:
  assumes "pose_index kp = Inr li"
  shows "\<exists>n. kp ''nose'' = Some n
     \<and> js_or (kp ''rightWrist'') (kp ''leftWrist'') = Some (nearestHand li)
     \<and> d_nose li = dist_helper (nearestHand li) n
     \<and> confidence li = confidence_at THRESHOLD_DISTANCE_index (d_nose li)
     \<and> result_index li =
           [(''distance'', JNum (parseFloat_toFixed 2 (d_nose li))),
            (''accepted'', JBool (js_ge (confidence li) ACCEPTANCE_THRESHOLD)),
            (''confidence'', JNum (parseFloat_toFixed 3 (confidence li)))]"
  using assms
  by (auto simp: pose_index_def Let_def split: option.splits if_splits)

lemma decide_part_InrD:
  assumes "decide_part f kp = Inr lp"
  shows "confidenceDecimal lp = confidence_at THRESHOLD_DISTANCE_part (minDist lp)
       \<and> minDist lp = js_min (distLeft lp) (distRight lp)
       \<and> closestHand lp = (if js_seq (minDist lp) (distLeft lp) then ''leftWrist'' else ''rightWrist'')
       \<and> result_part lp = [(''closestHand'', JStr (closestHand lp)),
                      (''distance'', JNum (parseFloat_toFixed 2 (minDist lp))),
                      (''accepted'', JBool (js_ge (confidenceDecimal lp) ACCEPTANCE_THRESHOLD))]
       \<and> (\<exists>n. kp ''nose'' = Some n
            \<and> distLeft lp = (case kp ''leftWrist'' of Some w \<Rightarrow> f w n | None \<Rightarrow> PInf)
            \<and> distRight lp = (case kp ''rightWrist'' of Some w \<Rightarrow> f w n | None \<Rightarrow> PInf))"
  using assms
  by (auto simp: decide_part_def Let_def split: option.splits)

lemma decide_part_total:
  assumes "kp ''nose'' = Some n"
  shows "\<exists>lp. decide_part f kp = Inr lp"
  using assms by (simp add: decide_part_def Let_def)

lemma js_min_nonneg:
  assumes "js_ge a (Fin 0)" and "js_ge b (Fin 0)"
  shows "js_min a b = (if js_le a b then a else b)"
    and "js_seq (js_min a b) a \<longleftrightarrow> js_le a b"
    and "js_ge (js_min a b) (Fin 0)"
  using assms by (cases a; cases b; simp add: js_le_def min_def)+

lemma decide_part_minDist:
  assumes "decide_part dist_helper kp = Inr lp"
  shows "js_ge (minDist lp) (Fin 0)"
proof -
  from decide_part_InrD [OF assms] obtain n where
    m: "minDist lp = js_min (distLeft lp) (distRight lp)" and
    l: "distLeft lp = (case kp ''leftWrist'' of Some w \<Rightarrow> dist_helper w n | None \<Rightarrow> PInf)" and
    r: "distRight lp = (case kp ''rightWrist'' of Some w \<Rightarrow> dist_helper w n | None \<Rightarrow> PInf)"
    by blast
  have "js_ge (distLeft lp) (Fin 0)"
    unfolding l by (cases "kp ''leftWrist''") (simp_all add: dist_helper_nonneg)
  moreover have "js_ge (distRight lp) (Fin 0)"
    unfolding r by (cases "kp ''rightWrist''") (simp_all add: dist_helper_nonneg)
  ultimately show ?thesis
    unfolding m by (rule js_min_nonneg(3))
qed

lemma collect_scored_untouched:
  assumes "\<forall>k\<in>set ps. part k \<noteq> p"
  shows "collect_scored kp ps p = kp p"
  using assms by (induction ps arbitrary: kp) auto

lemma collect_scored_present:
  "collect_scored kp ps p \<noteq> None \<longleftrightarrow>
     kp p \<noteq> None \<or> (p \<in> set wanted_parts \<and> (\<exists>k\<in>set ps. part k = p \<and> 1 / 2 \<le> score k))"
proof (induction ps arbitrary: kp)
  case Nil
  then show ?case by simp
next
  case (Cons point rest)
  show ?case
  proof (cases "score point < 1 / 2")
    case True
    then have "collect_scored kp (point # rest) p = collect_scored kp rest p"
      by simp
    moreover have "(\<exists>k\<in>set (point # rest). part k = p \<and> 1 / 2 \<le> score k)
        \<longleftrightarrow> (\<exists>k\<in>set rest. part k = p \<and> 1 / 2 \<le> score k)"
      using True by auto
    ultimately show ?thesis
      using Cons.IH [of kp] by simp
  next
    case False
    define kp' where
      "kp' = (if part point \<in> set wanted_parts then kp(part point \<mapsto> position point) else kp)"
    have step: "collect_scored kp (point # rest) p = collect_scored kp' rest p"
      using False by (simp add: kp'_def)
    have here: "kp' p \<noteq> None \<longleftrightarrow> kp p \<noteq> None \<or> (p \<in> set wanted_parts \<and> part point = p)"
      by (auto simp: kp'_def)
    have "collect_scored kp' rest p \<noteq> None \<longleftrightarrow>
        kp' p \<noteq> None \<or> (p \<in> set wanted_parts \<and> (\<exists>k\<in>set rest. part k = p \<and> 1 / 2 \<le> score k))"
      by (rule Cons.IH)
    also have "\<dots> \<longleftrightarrow> kp p \<noteq> None \<or>
        (p \<in> set wanted_parts \<and> (\<exists>k\<in>set (point # rest). part k = p \<and> 1 / 2 \<le> score k))"
      using False here by auto
    finally show ?thesis
      using step by simp
  qed
qed

lemma dom_collect_scored:
  "dom (collect_scored kp ps) =
     dom kp \<union> {p \<in> set wanted_parts. \<exists>k\<in>set ps. part k = p \<and> 1 / 2 \<le> score k}"
proof (rule set_eqI)
  fix p
  show "p \<in> dom (collect_scored kp ps) \<longleftrightarrow>
    p \<in> dom kp \<union> {p \<in> set wanted_parts. \<exists>k\<in>set ps. part k = p \<and> 1 / 2 \<le> score k}"
    using collect_scored_present [of kp ps p] by (simp add: domIff)
qed

lemma collect_scored_distinct:
  assumes "distinct (map part ps)" and "k \<in> set ps"
    and "part k \<in> set wanted_parts" and "1 / 2 \<le> score k"
  shows "collect_scored kp ps (part k) = Some (position k)"
  using assms
proof (induction ps arbitrary: kp)
  case Nil
  then show ?case by simp
next
  case (Cons point rest)
  show ?case
  proof (cases "k = point")
    case True
    have "part point \<notin> part ` set rest"
      using Cons.prems(1) by simp
    then have "\<forall>q\<in>set rest. part q \<noteq> part point"
      by (metis imageI)
    from collect_scored_untouched [OF this] True Cons.prems(3,4) show ?thesis
      by simp
  next
    case False
    then have "k \<in> set rest" using Cons.prems(2) by simp
    moreover have "distinct (map part rest)" using Cons.prems(1) by simp
    ultimately show ?thesis
      using Cons.IH Cons.prems(3,4) by simp
  qed
qed

subsection \<open>Evaluations\<close>

text \<open>
  The arithmetic of the endpoint at the example inputs, each rounding step evaluated:
  \<open>fl_evalI\<close> takes the binary exponent and the 53-bit significand of the result.
\<close>

lemma acceptance_threshold_value:
  "ACCEPTANCE_THRESHOLD = Fin (3602879701896397 / 2 ^ 55)"
  unfolding ACCEPTANCE_THRESHOLD_def
  using fl_evalI [of "- 4" "1 / 10" 7205759403792794]
  by (simp add: pow2_def round_half_even_def)

lemma dist_helper_3_4:
  "dist_helper \<lparr>pos_x = 3, pos_y = 4\<rparr> \<lparr>pos_x = 0, pos_y = 0\<rparr> = Fin 5"
proof -
  have dx: "js_sub (Fin 3) (Fin 0) = Fin 3"
    using fl_evalI [of 1 "3 - 0" 6755399441055744]
    by (simp add: pow2_def round_half_even_def)
  have dy: "js_sub (Fin 4) (Fin 0) = Fin 4"
    using fl_evalI [of 2 "4 - 0" 4503599627370496]
    by (simp add: pow2_def round_half_even_def)
  have sx: "js_mul (Fin 3) (Fin 3) = Fin 9"
    using fl_evalI [of 3 "3 * 3" 5066549580791808]
    by (simp add: pow2_def round_half_even_def)
  have sy: "js_mul (Fin 4) (Fin 4) = Fin 16"
    using fl_evalI [of 4 "4 * 4" 4503599627370496]
    by (simp add: pow2_def round_half_even_def)
  have sm: "js_add (Fin 9) (Fin 16) = Fin 25"
    using fl_evalI [of 4 "9 + 16" 7036874417766400]
    by (simp add: pow2_def round_half_even_def)
  have sq: "sqrt 25 = 5"
    by (rule real_sqrt_unique) (simp_all add: power2_eq_square)
  have rt: "js_sqrt (Fin 25) = Fin 5"
    using fl_evalI [of 2 "5" 5629499534213120]
    by (simp add: sq pow2_def round_half_even_def)
  show ?thesis
    by (simp only: dist_helper_def Let_def position.select_convs dx dy sx sy sm rt)
qed

lemma dist_helper_4_3:
  "dist_helper \<lparr>pos_x = 4, pos_y = 3\<rparr> \<lparr>pos_x = 0, pos_y = 0\<rparr> = Fin 5"
proof -
  have dx: "js_sub (Fin 4) (Fin 0) = Fin 4"
    using fl_evalI [of 2 "4 - 0" 4503599627370496]
    by (simp add: pow2_def round_half_even_def)
  have dy: "js_sub (Fin 3) (Fin 0) = Fin 3"
    using fl_evalI [of 1 "3 - 0" 6755399441055744]
    by (simp add: pow2_def round_half_even_def)
  have sx: "js_mul (Fin 4) (Fin 4) = Fin 16"
    using fl_evalI [of 4 "4 * 4" 4503599627370496]
    by (simp add: pow2_def round_half_even_def)
  have sy: "js_mul (Fin 3) (Fin 3) = Fin 9"
    using fl_evalI [of 3 "3 * 3" 5066549580791808]
    by (simp add: pow2_def round_half_even_def)
  have sm: "js_add (Fin 16) (Fin 9) = Fin 25"
    using fl_evalI [of 4 "16 + 9" 7036874417766400]
    by (simp add: pow2_def round_half_even_def)
  have sq: "sqrt 25 = 5"
    by (rule real_sqrt_unique) (simp_all add: power2_eq_square)
  have rt: "js_sqrt (Fin 25) = Fin 5"
    using fl_evalI [of 2 "5" 5629499534213120]
    by (simp add: sq pow2_def round_half_even_def)
  show ?thesis
    by (simp only: dist_helper_def Let_def position.select_convs dx dy sx sy sm rt)
qed

lemma dist_helper_6_8:
  "dist_helper \<lparr>pos_x = 6, pos_y = 8\<rparr> \<lparr>pos_x = 0, pos_y = 0\<rparr> = Fin 10"
proof -
  have dx: "js_sub (Fin 6) (Fin 0) = Fin 6"
    using fl_evalI [of 2 "6 - 0" 6755399441055744]
    by (simp add: pow2_def round_half_even_def)
  have dy: "js_sub (Fin 8) (Fin 0) = Fin 8"
    using fl_evalI [of 3 "8 - 0" 4503599627370496]
    by (simp add: pow2_def round_half_even_def)
  have sx: "js_mul (Fin 6) (Fin 6) = Fin 36"
    using fl_evalI [of 5 "6 * 6" 5066549580791808]
    by (simp add: pow2_def round_half_even_def)
  have sy: "js_mul (Fin 8) (Fin 8) = Fin 64"
    using fl_evalI [of 6 "8 * 8" 4503599627370496]
    by (simp add: pow2_def round_half_even_def)
  have sm: "js_add (Fin 36) (Fin 64) = Fin 100"
    using fl_evalI [of 6 "36 + 64" 7036874417766400]
    by (simp add: pow2_def round_half_even_def)
  have sq: "sqrt 100 = 10"
    by (rule real_sqrt_unique) (simp_all add: power2_eq_square)
  have rt: "js_sqrt (Fin 100) = Fin 10"
    using fl_evalI [of 3 "10" 5629499534213120]
    by (simp add: sq pow2_def round_half_even_def)
  show ?thesis
    by (simp only: dist_helper_def Let_def position.select_convs dx dy sx sy sm rt)
qed

lemma dist_helper_1350:
  "dist_helper \<lparr>pos_x = 1350, pos_y = 0\<rparr> \<lparr>pos_x = 0, pos_y = 0\<rparr> = Fin 1350"
proof -
  have dx: "js_sub (Fin 1350) (Fin 0) = Fin 1350"
    using fl_evalI [of 10 "1350 - 0" 5937362789990400]
    by (simp add: pow2_def round_half_even_def)
  have dy: "js_sub (Fin 0) (Fin 0) = Fin 0"
    by simp
  have sx: "js_mul (Fin 1350) (Fin 1350) = Fin 1822500"
    using fl_evalI [of 20 "1350 * 1350" 7827577896960000]
    by (simp add: pow2_def round_half_even_def)
  have sy: "js_mul (Fin 0) (Fin 0) = Fin 0"
    by simp
  have sm: "js_add (Fin 1822500) (Fin 0) = Fin 1822500"
    using fl_evalI [of 20 "1822500 + 0" 7827577896960000]
    by (simp add: pow2_def round_half_even_def)
  have sq: "sqrt 1822500 = 1350"
    by (rule real_sqrt_unique) (simp_all add: power2_eq_square)
  have rt: "js_sqrt (Fin 1822500) = Fin 1350"
    using fl_evalI [of 10 "1350" 5937362789990400]
    by (simp add: sq pow2_def round_half_even_def)
  show ?thesis
    by (simp only: dist_helper_def Let_def position.select_convs dx dy sx sy sm rt)
qed

lemma dist_helper_495:
  "dist_helper \<lparr>pos_x = 495, pos_y = 0\<rparr> \<lparr>pos_x = 0, pos_y = 0\<rparr> = Fin 495"
proof -
  have dx: "js_sub (Fin 495) (Fin 0) = Fin 495"
    using fl_evalI [of 8 "495 - 0" 8708132091985920]
    by (simp add: pow2_def round_half_even_def)
  have dy: "js_sub (Fin 0) (Fin 0) = Fin 0"
    by simp
  have sx: "js_mul (Fin 495) (Fin 495) = Fin 245025"
    using fl_evalI [of 17 "495 * 495" 8418994893619200]
    by (simp add: pow2_def round_half_even_def)
  have sy: "js_mul (Fin 0) (Fin 0) = Fin 0"
    by simp
  have sm: "js_add (Fin 245025) (Fin 0) = Fin 245025"
    using fl_evalI [of 17 "245025 + 0" 8418994893619200]
    by (simp add: pow2_def round_half_even_def)
  have sq: "sqrt 245025 = 495"
    by (rule real_sqrt_unique) (simp_all add: power2_eq_square)
  have rt: "js_sqrt (Fin 245025) = Fin 495"
    using fl_evalI [of 8 "495" 8708132091985920]
    by (simp add: sq pow2_def round_half_even_def)
  show ?thesis
    by (simp only: dist_helper_def Let_def position.select_convs dx dy sx sy sm rt)
qed

lemma dist_helper_95_25:
  "dist_helper \<lparr>pos_x = 381 / 4, pos_y = 0\<rparr> \<lparr>pos_x = 0, pos_y = 0\<rparr> = Fin (381 / 4)"
proof -
  have dx: "js_sub (Fin (381 / 4)) (Fin 0) = Fin (381 / 4)"
    using fl_evalI [of 6 "(381 / 4) - 0" 6702622882922496]
    by (simp add: pow2_def round_half_even_def)
  have dy: "js_sub (Fin 0) (Fin 0) = Fin 0"
    by simp
  have sx: "js_mul (Fin (381 / 4)) (Fin (381 / 4)) = Fin (145161 / 16)"
    using fl_evalI [of 13 "(381 / 4) * (381 / 4)" 4987693981237248]
    by (simp add: pow2_def round_half_even_def)
  have sy: "js_mul (Fin 0) (Fin 0) = Fin 0"
    by simp
  have sm: "js_add (Fin (145161 / 16)) (Fin 0) = Fin (145161 / 16)"
    using fl_evalI [of 13 "(145161 / 16) + 0" 4987693981237248]
    by (simp add: pow2_def round_half_even_def)
  have sq: "sqrt (145161 / 16) = 381 / 4"
    by (rule real_sqrt_unique) (simp_all add: power2_eq_square)
  have rt: "js_sqrt (Fin (145161 / 16)) = Fin (381 / 4)"
    using fl_evalI [of 6 "381 / 4" 6702622882922496]
    by (simp add: sq pow2_def round_half_even_def)
  show ?thesis
    by (simp only: dist_helper_def Let_def position.select_convs dx dy sx sy sm rt)
qed

lemma dist_helper_eighth:
  "dist_helper \<lparr>pos_x = 1 / 8, pos_y = 0\<rparr> \<lparr>pos_x = 0, pos_y = 0\<rparr> = Fin (1 / 8)"
proof -
  have dx: "js_sub (Fin (1 / 8)) (Fin 0) = Fin (1 / 8)"
    using fl_evalI [of "- 3" "(1 / 8) - 0" 4503599627370496]
    by (simp add: pow2_def round_half_even_def)
  have dy: "js_sub (Fin 0) (Fin 0) = Fin 0"
    by simp
  have sx: "js_mul (Fin (1 / 8)) (Fin (1 / 8)) = Fin (1 / 64)"
    using fl_evalI [of "- 6" "(1 / 8) * (1 / 8)" 4503599627370496]
    by (simp add: pow2_def round_half_even_def)
  have sy: "js_mul (Fin 0) (Fin 0) = Fin 0"
    by simp
  have sm: "js_add (Fin (1 / 64)) (Fin 0) = Fin (1 / 64)"
    using fl_evalI [of "- 6" "(1 / 64) + 0" 4503599627370496]
    by (simp add: pow2_def round_half_even_def)
  have sq: "sqrt (1 / 64) = 1 / 8"
    by (rule real_sqrt_unique) (simp_all add: power2_eq_square)
  have rt: "js_sqrt (Fin (1 / 64)) = Fin (1 / 8)"
    using fl_evalI [of "- 3" "1 / 8" 4503599627370496]
    by (simp add: sq pow2_def round_half_even_def)
  show ?thesis
    by (simp only: dist_helper_def Let_def position.select_convs dx dy sx sy sm rt)
qed

lemma dist_helper_100:
  "dist_helper \<lparr>pos_x = 100, pos_y = 0\<rparr> \<lparr>pos_x = 0, pos_y = 0\<rparr> = Fin 100"
proof -
  have dx: "js_sub (Fin 100) (Fin 0) = Fin 100"
    using fl_evalI [of 6 "100 - 0" 7036874417766400]
    by (simp add: pow2_def round_half_even_def)
  have dy: "js_sub (Fin 0) (Fin 0) = Fin 0"
    by simp
  have sx: "js_mul (Fin 100) (Fin 100) = Fin 10000"
    using fl_evalI [of 13 "100 * 100" 5497558138880000]
    by (simp add: pow2_def round_half_even_def)
  have sy: "js_mul (Fin 0) (Fin 0) = Fin 0"
    by simp
  have sm: "js_add (Fin 10000) (Fin 0) = Fin 10000"
    using fl_evalI [of 13 "10000 + 0" 5497558138880000]
    by (simp add: pow2_def round_half_even_def)
  have sq: "sqrt 10000 = 100"
    by (rule real_sqrt_unique) (simp_all add: power2_eq_square)
  have rt: "js_sqrt (Fin 10000) = Fin 100"
    using fl_evalI [of 6 "100" 7036874417766400]
    by (simp add: sq pow2_def round_half_even_def)
  show ?thesis
    by (simp only: dist_helper_def Let_def position.select_convs dx dy sx sy sm rt)
qed

lemma dist_helper_near_100:
  "dist_helper \<lparr>pos_x = 100, pos_y = 1 / 2 ^ 24\<rparr> \<lparr>pos_x = 0, pos_y = 0\<rparr> = Fin 100"
proof -
  have dx: "js_sub (Fin 100) (Fin 0) = Fin 100"
    using fl_evalI [of 6 "100 - 0" 7036874417766400]
    by (simp add: pow2_def round_half_even_def)
  have dy: "js_sub (Fin (1 / 2 ^ 24)) (Fin 0) = Fin (1 / 2 ^ 24)"
    using fl_evalI [of "- 24" "(1 / 2 ^ 24) - 0" 4503599627370496]
    by (simp add: pow2_def round_half_even_def)
  have sx: "js_mul (Fin 100) (Fin 100) = Fin 10000"
    using fl_evalI [of 13 "100 * 100" 5497558138880000]
    by (simp add: pow2_def round_half_even_def)
  have sy: "js_mul (Fin (1 / 2 ^ 24)) (Fin (1 / 2 ^ 24)) = Fin (1 / 2 ^ 48)"
    using fl_evalI [of "- 48" "(1 / 2 ^ 24) * (1 / 2 ^ 24)" 4503599627370496]
    by (simp add: pow2_def round_half_even_def)
  have sm: "js_add (Fin 10000) (Fin (1 / 2 ^ 48)) = Fin 10000"
    using fl_evalI [of 13 "10000 + (1 / 2 ^ 48)" 5497558138880000]
    by (simp add: pow2_def round_half_even_def)
  have sq: "sqrt 10000 = 100"
    by (rule real_sqrt_unique) (simp_all add: power2_eq_square)
  have rt: "js_sqrt (Fin 10000) = Fin 100"
    using fl_evalI [of 6 "100" 7036874417766400]
    by (simp add: sq pow2_def round_half_even_def)
  show ?thesis
    by (simp only: dist_helper_def Let_def position.select_convs dx dy sx sy sm rt)
qed

lemma dist_helper_decimal:
  "dist_helper \<lparr>pos_x = 1567309844929577 / 2 ^ 42, pos_y = 0\<rparr> \<lparr>pos_x = 3521955646092083 / 2 ^ 45, pos_y = 0\<rparr> = Fin (2254130778336133 / 2 ^ 43)"
proof -
  have dx: "js_sub (Fin (1567309844929577 / 2 ^ 42)) (Fin (3521955646092083 / 2 ^ 45)) = Fin (2254130778336133 / 2 ^ 43)"
    using fl_evalI [of 8 "(1567309844929577 / 2 ^ 42) - (3521955646092083 / 2 ^ 45)" 4508261556672266]
    by (simp add: pow2_def round_half_even_def)
  have dy: "js_sub (Fin 0) (Fin 0) = Fin 0"
    by simp
  have sx: "js_mul (Fin (2254130778336133 / 2 ^ 43)) (Fin (2254130778336133 / 2 ^ 43)) = Fin (2256464155899645 / 2 ^ 35)"
    using fl_evalI [of 16 "(2254130778336133 / 2 ^ 43) * (2254130778336133 / 2 ^ 43)" 4512928311799290]
    by (simp add: pow2_def round_half_even_def)
  have sy: "js_mul (Fin 0) (Fin 0) = Fin 0"
    by simp
  have sm: "js_add (Fin (2256464155899645 / 2 ^ 35)) (Fin 0) = Fin (2256464155899645 / 2 ^ 35)"
    using fl_evalI [of 16 "(2256464155899645 / 2 ^ 35) + 0" 4512928311799290]
    by (simp add: pow2_def round_half_even_def)
  have rt: "js_sqrt (Fin (2256464155899645 / 2 ^ 35)) = Fin (2254130778336133 / 2 ^ 43)"
  proof -
    define s :: real where "s = 2256464155899645 / 2 ^ 35"
    have lo: "(4508261556672266 - 1 / 2) / 2 ^ 44 < sqrt s"
      unfolding s_def by (rule real_less_rsqrt) (simp add: power2_eq_square)
    have hi: "sqrt s < (4508261556672266 + 1 / 2) / 2 ^ 44"
      unfolding s_def by (rule real_less_lsqrt) (simp_all add: power2_eq_square)
    have a1: "pow2 (8) \<le> \<bar>sqrt s\<bar>"
      using lo by (simp add: pow2_def)
    have a2: "\<bar>sqrt s\<bar> < pow2 (8 + 1)"
      using hi lo by (simp add: pow2_def)
    define y where "y = sqrt s / pow2 (8 - 52)"
    have "4508261556672266 - 1 / 2 < y" and "y < 4508261556672266 + 1 / 2"
      using lo hi by (simp_all add: y_def pow2_def field_simps)
    then have "\<bar>y - 4508261556672266\<bar> < 1 / 2"
      by linarith
    then have a3: "\<bar>sqrt s / pow2 (8 - 52) - real_of_int 4508261556672266\<bar> < 1 / 2"
      by (simp add: y_def)
    have "fl (sqrt s) = Fin (real_of_int 4508261556672266 * pow2 (8 - 52))"
      using a1 a2 _ a3 by (rule fl_eqI) (simp_all add: pow2_def)
    then have "fl (sqrt s) = Fin (2254130778336133 / 2 ^ 43)"
      by (simp add: pow2_def)
    moreover have "0 \<le> s"
      by (simp add: s_def)
    ultimately show ?thesis
      unfolding s_def by simp
  qed
  show ?thesis
    by (simp only: dist_helper_def Let_def position.select_convs dx dy sx sy sm rt)
qed

lemma dist_helper_pair_left:
  "dist_helper \<lparr>pos_x = 2589569785738035 / 2 ^ 48, pos_y = 3152519739159347 / 2 ^ 51\<rparr> \<lparr>pos_x = 5854679515581645 / 2 ^ 50, pos_y = 2476979795053773 / 2 ^ 49\<rparr> = Fin 5"
proof -
  have dx: "js_sub (Fin (2589569785738035 / 2 ^ 48)) (Fin (5854679515581645 / 2 ^ 50)) = Fin (4503599627370495 / 2 ^ 50)"
    using fl_evalI [of 1 "(2589569785738035 / 2 ^ 48) - (5854679515581645 / 2 ^ 50)" 9007199254740990]
    by (simp add: pow2_def round_half_even_def)
  have dy: "js_sub (Fin (3152519739159347 / 2 ^ 51)) (Fin (2476979795053773 / 2 ^ 49)) = Fin (- 6755399441055745 / 2 ^ 51)"
    using fl_evalI [of 1 "(3152519739159347 / 2 ^ 51) - (2476979795053773 / 2 ^ 49)" "- 6755399441055745"]
    by (simp add: pow2_def round_half_even_def)
  have sx: "js_mul (Fin (4503599627370495 / 2 ^ 50)) (Fin (4503599627370495 / 2 ^ 50)) = Fin (2251799813685247 / 2 ^ 47)"
    using fl_evalI [of 3 "(4503599627370495 / 2 ^ 50) * (4503599627370495 / 2 ^ 50)" 9007199254740988]
    by (simp add: pow2_def round_half_even_def)
  have sy: "js_mul (Fin (- 6755399441055745 / 2 ^ 51)) (Fin (- 6755399441055745 / 2 ^ 51)) = Fin (2533274790395905 / 2 ^ 48)"
    using fl_evalI [of 3 "(- 6755399441055745 / 2 ^ 51) * (- 6755399441055745 / 2 ^ 51)" 5066549580791810]
    by (simp add: pow2_def round_half_even_def)
  have sm: "js_add (Fin (2251799813685247 / 2 ^ 47)) (Fin (2533274790395905 / 2 ^ 48)) = Fin (7036874417766399 / 2 ^ 48)"
    using fl_evalI [of 4 "(2251799813685247 / 2 ^ 47) + (2533274790395905 / 2 ^ 48)" 7036874417766399]
    by (simp add: pow2_def round_half_even_def)
  have rt: "js_sqrt (Fin (7036874417766399 / 2 ^ 48)) = Fin 5"
  proof -
    define s :: real where "s = 7036874417766399 / 2 ^ 48"
    have lo: "(5629499534213120 - 1 / 2) / 2 ^ 50 < sqrt s"
      unfolding s_def by (rule real_less_rsqrt) (simp add: power2_eq_square)
    have hi: "sqrt s < (5629499534213120 + 1 / 2) / 2 ^ 50"
      unfolding s_def by (rule real_less_lsqrt) (simp_all add: power2_eq_square)
    have a1: "pow2 (2) \<le> \<bar>sqrt s\<bar>"
      using lo by (simp add: pow2_def)
    have a2: "\<bar>sqrt s\<bar> < pow2 (2 + 1)"
      using hi lo by (simp add: pow2_def)
    define y where "y = sqrt s / pow2 (2 - 52)"
    have "5629499534213120 - 1 / 2 < y" and "y < 5629499534213120 + 1 / 2"
      using lo hi by (simp_all add: y_def pow2_def field_simps)
    then have "\<bar>y - 5629499534213120\<bar> < 1 / 2"
      by linarith
    then have a3: "\<bar>sqrt s / pow2 (2 - 52) - real_of_int 5629499534213120\<bar> < 1 / 2"
      by (simp add: y_def)
    have "fl (sqrt s) = Fin (real_of_int 5629499534213120 * pow2 (2 - 52))"
      using a1 a2 _ a3 by (rule fl_eqI) (simp_all add: pow2_def)
    then have "fl (sqrt s) = Fin 5"
      by (simp add: pow2_def)
    moreover have "0 \<le> s"
      by (simp add: s_def)
    ultimately show ?thesis
      unfolding s_def by simp
  qed
  show ?thesis
    by (simp only: dist_helper_def Let_def position.select_convs dx dy sx sy sm rt)
qed

lemma dist_helper_pair_right:
  "dist_helper \<lparr>pos_x = 2308094809027379 / 2 ^ 48, pos_y = 3602879701896397 / 2 ^ 53\<rparr> \<lparr>pos_x = 5854679515581645 / 2 ^ 50, pos_y = 2476979795053773 / 2 ^ 49\<rparr> = Fin (5629499534213119 / 2 ^ 50)"
proof -
  have dx: "js_sub (Fin (2308094809027379 / 2 ^ 48)) (Fin (5854679515581645 / 2 ^ 50)) = Fin (3377699720527871 / 2 ^ 50)"
    using fl_evalI [of 1 "(2308094809027379 / 2 ^ 48) - (5854679515581645 / 2 ^ 50)" 6755399441055742]
    by (simp add: pow2_def round_half_even_def)
  have dy: "js_sub (Fin (3602879701896397 / 2 ^ 53)) (Fin (2476979795053773 / 2 ^ 49)) = Fin (- 4)"
    using fl_evalI [of 2 "(3602879701896397 / 2 ^ 53) - (2476979795053773 / 2 ^ 49)" "- 4503599627370496"]
    by (simp add: pow2_def round_half_even_def)
  have sx: "js_mul (Fin (3377699720527871 / 2 ^ 50)) (Fin (3377699720527871 / 2 ^ 50)) = Fin (5066549580791805 / 2 ^ 49)"
    using fl_evalI [of 3 "(3377699720527871 / 2 ^ 50) * (3377699720527871 / 2 ^ 50)" 5066549580791805]
    by (simp add: pow2_def round_half_even_def)
  have sy: "js_mul (Fin (- 4)) (Fin (- 4)) = Fin 16"
    using fl_evalI [of 4 "(- 4) * (- 4)" 4503599627370496]
    by (simp add: pow2_def round_half_even_def)
  have sm: "js_add (Fin (5066549580791805 / 2 ^ 49)) (Fin 16) = Fin (3518437208883199 / 2 ^ 47)"
    using fl_evalI [of 4 "(5066549580791805 / 2 ^ 49) + 16" 7036874417766398]
    by (simp add: pow2_def round_half_even_def)
  have rt: "js_sqrt (Fin (3518437208883199 / 2 ^ 47)) = Fin (5629499534213119 / 2 ^ 50)"
  proof -
    define s :: real where "s = 3518437208883199 / 2 ^ 47"
    have lo: "(5629499534213119 - 1 / 2) / 2 ^ 50 < sqrt s"
      unfolding s_def by (rule real_less_rsqrt) (simp add: power2_eq_square)
    have hi: "sqrt s < (5629499534213119 + 1 / 2) / 2 ^ 50"
      unfolding s_def by (rule real_less_lsqrt) (simp_all add: power2_eq_square)
    have a1: "pow2 (2) \<le> \<bar>sqrt s\<bar>"
      using lo by (simp add: pow2_def)
    have a2: "\<bar>sqrt s\<bar> < pow2 (2 + 1)"
      using hi lo by (simp add: pow2_def)
    define y where "y = sqrt s / pow2 (2 - 52)"
    have "5629499534213119 - 1 / 2 < y" and "y < 5629499534213119 + 1 / 2"
      using lo hi by (simp_all add: y_def pow2_def field_simps)
    then have "\<bar>y - 5629499534213119\<bar> < 1 / 2"
      by linarith
    then have a3: "\<bar>sqrt s / pow2 (2 - 52) - real_of_int 5629499534213119\<bar> < 1 / 2"
      by (simp add: y_def)
    have "fl (sqrt s) = Fin (real_of_int 5629499534213119 * pow2 (2 - 52))"
      using a1 a2 _ a3 by (rule fl_eqI) (simp_all add: pow2_def)
    then have "fl (sqrt s) = Fin (5629499534213119 / 2 ^ 50)"
      by (simp add: pow2_def)
    moreover have "0 \<le> s"
      by (simp add: s_def)
    ultimately show ?thesis
      unfolding s_def by simp
  qed
  show ?thesis
    by (simp only: dist_helper_def Let_def position.select_convs dx dy sx sy sm rt)
qed

lemma fl_0_997: "fl (997 / 1000) = Fin (8980177656976769 / 2 ^ 53)"
  using fl_evalI [of "- 1" "997 / 1000" 8980177656976769]
  by (simp add: pow2_def round_half_even_def)

lemma fl_0_13: "fl (13 / 100) = Fin (1170935903116329 / 2 ^ 53)"
  using fl_evalI [of "- 3" "13 / 100" 4683743612465316]
  by (simp add: pow2_def round_half_even_def)

lemma fl_0_936: "fl (117 / 125) = Fin (8430738502437569 / 2 ^ 53)"
  using fl_evalI [of "- 1" "117 / 125" 8430738502437569]
  by (simp add: pow2_def round_half_even_def)

lemma fl_0_993: "fl (993 / 1000) = Fin (8944148859957805 / 2 ^ 53)"
  using fl_evalI [of "- 1" "993 / 1000" 8944148859957805]
  by (simp add: pow2_def round_half_even_def)

lemma fl_0_991: "fl (991 / 1000) = Fin (8926134461448323 / 2 ^ 53)"
  using fl_evalI [of "- 1" "991 / 1000" 8926134461448323]
  by (simp add: pow2_def round_half_even_def)

lemma fl_256_26: "fl (12813 / 50) = Fin (1127043398935511 / 2 ^ 42)"
  using fl_evalI [of 8 "12813 / 50" 4508173595742044]
  by (simp add: pow2_def round_half_even_def)

lemma confidence_part_5:
  "confidence_at THRESHOLD_DISTANCE_part (Fin 5) = Fin (4462657812576219 / 2 ^ 52)"
proof -
  have q: "js_div (Fin 5) (Fin 550) = Fin (2620276146833743 / 2 ^ 58)"
    using fl_evalI [of "- 7" "5 / 550" 5240552293667486]
    by (simp add: pow2_def round_half_even_def)
  have c: "js_sub (Fin 1) (Fin (2620276146833743 / 2 ^ 58)) = Fin (4462657812576219 / 2 ^ 52)"
    using fl_evalI [of "- 1" "1 - (2620276146833743 / 2 ^ 58)" 8925315625152438]
    by (simp add: pow2_def round_half_even_def)
  have m: "js_max (Fin 0) (Fin (4462657812576219 / 2 ^ 52)) = Fin (4462657812576219 / 2 ^ 52)"
    by simp
  show ?thesis
    by (simp only: confidence_at_def THRESHOLD_DISTANCE_part_def q c m)
qed

lemma confidence_part_495:
  "confidence_at THRESHOLD_DISTANCE_part (Fin 495) = Fin (900719925474099 / 2 ^ 53)"
proof -
  have q: "js_div (Fin 495) (Fin 550) = Fin (8106479329266893 / 2 ^ 53)"
    using fl_evalI [of "- 1" "495 / 550" 8106479329266893]
    by (simp add: pow2_def round_half_even_def)
  have c: "js_sub (Fin 1) (Fin (8106479329266893 / 2 ^ 53)) = Fin (900719925474099 / 2 ^ 53)"
    using fl_evalI [of "- 4" "1 - (8106479329266893 / 2 ^ 53)" 7205759403792792]
    by (simp add: pow2_def round_half_even_def)
  have m: "js_max (Fin 0) (Fin (900719925474099 / 2 ^ 53)) = Fin (900719925474099 / 2 ^ 53)"
    by simp
  show ?thesis
    by (simp only: confidence_at_def THRESHOLD_DISTANCE_part_def q c m)
qed

lemma confidence_index_5:
  "confidence_at THRESHOLD_DISTANCE_index (Fin 5) = Fin (8977175257225189 / 2 ^ 53)"
proof -
  have q: "js_div (Fin 5) (Fin 1500) = Fin (7686143364045647 / 2 ^ 61)"
    using fl_evalI [of "- 9" "5 / 1500" 7686143364045647]
    by (simp add: pow2_def round_half_even_def)
  have c: "js_sub (Fin 1) (Fin (7686143364045647 / 2 ^ 61)) = Fin (8977175257225189 / 2 ^ 53)"
    using fl_evalI [of "- 1" "1 - (7686143364045647 / 2 ^ 61)" 8977175257225189]
    by (simp add: pow2_def round_half_even_def)
  have m: "js_max (Fin 0) (Fin (8977175257225189 / 2 ^ 53)) = Fin (8977175257225189 / 2 ^ 53)"
    by simp
  show ?thesis
    by (simp only: confidence_at_def THRESHOLD_DISTANCE_index_def q c m)
qed

lemma confidence_index_10:
  "confidence_at THRESHOLD_DISTANCE_index (Fin 10) = Fin (8947151259709385 / 2 ^ 53)"
proof -
  have q: "js_div (Fin 10) (Fin 1500) = Fin (7686143364045647 / 2 ^ 60)"
    using fl_evalI [of "- 8" "10 / 1500" 7686143364045647]
    by (simp add: pow2_def round_half_even_def)
  have c: "js_sub (Fin 1) (Fin (7686143364045647 / 2 ^ 60)) = Fin (8947151259709385 / 2 ^ 53)"
    using fl_evalI [of "- 1" "1 - (7686143364045647 / 2 ^ 60)" 8947151259709385]
    by (simp add: pow2_def round_half_even_def)
  have m: "js_max (Fin 0) (Fin (8947151259709385 / 2 ^ 53)) = Fin (8947151259709385 / 2 ^ 53)"
    by simp
  show ?thesis
    by (simp only: confidence_at_def THRESHOLD_DISTANCE_index_def q c m)
qed

lemma confidence_index_1350:
  "confidence_at THRESHOLD_DISTANCE_index (Fin 1350) = Fin (900719925474099 / 2 ^ 53)"
proof -
  have q: "js_div (Fin 1350) (Fin 1500) = Fin (8106479329266893 / 2 ^ 53)"
    using fl_evalI [of "- 1" "1350 / 1500" 8106479329266893]
    by (simp add: pow2_def round_half_even_def)
  have c: "js_sub (Fin 1) (Fin (8106479329266893 / 2 ^ 53)) = Fin (900719925474099 / 2 ^ 53)"
    using fl_evalI [of "- 4" "1 - (8106479329266893 / 2 ^ 53)" 7205759403792792]
    by (simp add: pow2_def round_half_even_def)
  have m: "js_max (Fin 0) (Fin (900719925474099 / 2 ^ 53)) = Fin (900719925474099 / 2 ^ 53)"
    by simp
  show ?thesis
    by (simp only: confidence_at_def THRESHOLD_DISTANCE_index_def q c m)
qed

lemma confidence_index_95_25:
  "confidence_at THRESHOLD_DISTANCE_index (Fin (381 / 4)) = Fin (8435242102064939 / 2 ^ 53)"
proof -
  have q: "js_div (Fin (381 / 4)) (Fin 1500) = Fin (571957152676053 / 2 ^ 53)"
    using fl_evalI [of "- 4" "(381 / 4) / 1500" 4575657221408424]
    by (simp add: pow2_def round_half_even_def)
  have c: "js_sub (Fin 1) (Fin (571957152676053 / 2 ^ 53)) = Fin (8435242102064939 / 2 ^ 53)"
    using fl_evalI [of "- 1" "1 - (571957152676053 / 2 ^ 53)" 8435242102064939]
    by (simp add: pow2_def round_half_even_def)
  have m: "js_max (Fin 0) (Fin (8435242102064939 / 2 ^ 53)) = Fin (8435242102064939 / 2 ^ 53)"
    by simp
  show ?thesis
    by (simp only: confidence_at_def THRESHOLD_DISTANCE_index_def q c m)
qed

lemma confidence_index_eighth:
  "confidence_at THRESHOLD_DISTANCE_index (Fin (1 / 8)) = Fin (9006448654803097 / 2 ^ 53)"
proof -
  have q: "js_div (Fin (1 / 8)) (Fin 1500) = Fin (6148914691236517 / 2 ^ 66)"
    using fl_evalI [of "- 14" "(1 / 8) / 1500" 6148914691236517]
    by (simp add: pow2_def round_half_even_def)
  have c: "js_sub (Fin 1) (Fin (6148914691236517 / 2 ^ 66)) = Fin (9006448654803097 / 2 ^ 53)"
    using fl_evalI [of "- 1" "1 - (6148914691236517 / 2 ^ 66)" 9006448654803097]
    by (simp add: pow2_def round_half_even_def)
  have m: "js_max (Fin 0) (Fin (9006448654803097 / 2 ^ 53)) = Fin (9006448654803097 / 2 ^ 53)"
    by simp
  show ?thesis
    by (simp only: confidence_at_def THRESHOLD_DISTANCE_index_def q c m)
qed

section \<open>The claims\<close>

text \<open>
  C1, as stated, gives every Judgment the confidence \<open>max 0 (1 - distance / THRESHOLD_DISTANCE)\<close>.
  With the nose at \<open>(0,0)\<close> and only the left wrist, at \<open>(3,4)\<close>, \<^verbatim>\<open>index.js\<close>
  returns the distance 5 and the confidence 0.997: neither the number the expression
  computes at 5 nor the real \<open>1 - 5 / 1500\<close>. The two earlier revisions return no
  confidence.
\<close>

theorem returned_confidence_is_rounded:
  "reply_field ''distance'' (reply_index kp_left_only) = Some (JNum (Fin 5))
   \<and> reply_field ''confidence'' (reply_index kp_left_only) = Some (JNum (fl (997 / 1000)))
   \<and> fl (997 / 1000) \<noteq> confidence_at THRESHOLD_DISTANCE_index (Fin 5)
   \<and> fl (997 / 1000) \<noteq> Fin (max 0 (1 - 5 / THRESHOLD_DISTANCE_index))
   \<and> reply_field ''confidence'' (reply_part_000 kp_left_only) = None
   \<and> reply_field ''confidence'' (reply_part_001 kp_left_only) = None"
proof -
  obtain li where li: "pose_index kp_left_only = Inr li" "d_nose li = Fin 5"
    by (simp add: pose_index_def kp_left_only_def js_or_def Let_def dist_helper_3_4)
  from pose_index_InrD [OF li(1)] li(2)
  have c: "confidence li = Fin (8977175257225189 / 2 ^ 53)"
    and r: "result_index li =
           [(''distance'', JNum (parseFloat_toFixed 2 (d_nose li))),
            (''accepted'', JBool (js_ge (confidence li) ACCEPTANCE_THRESHOLD)),
            (''confidence'', JNum (parseFloat_toFixed 3 (confidence li)))]"
    by (auto simp: confidence_index_5)
  have d: "reply_field ''distance'' (reply_index kp_left_only) = Some (JNum (Fin 5))"
    using fl_int [of 5] by (simp add: reply_field_def reply_index_def li r)
  have f: "reply_field ''confidence'' (reply_index kp_left_only) = Some (JNum (fl (997 / 1000)))"
    by (simp add: reply_field_def reply_index_def li(1) r c)
  have n1: "fl (997 / 1000) \<noteq> confidence_at THRESHOLD_DISTANCE_index (Fin 5)"
    using fl_0_997 by (simp add: confidence_index_5)
  have n2: "fl (997 / 1000) \<noteq> Fin (max 0 (1 - 5 / THRESHOLD_DISTANCE_index))"
    using fl_0_997 by (simp add: THRESHOLD_DISTANCE_index_def)
  have p: "reply_field ''confidence'' (reply_part_000 kp_left_only) = None"
    "reply_field ''confidence'' (reply_part_001 kp_left_only) = None"
    by (simp_all add: reply_field_def reply_part_000_def reply_part_001_def pose_part_000_001
        pose_part_001_def decide_part_def kp_left_only_def Let_def)
  show ?thesis
    using d f n1 n2 p by blast
qed

text \<open>
  C1, amended. In all three revisions the confidence a request computes is the
  expression \<^verbatim>\<open>Math.max(0, 1 - d / THRESHOLD_DISTANCE)\<close>, in binary64 arithmetic, at the
  unrounded distance \<^verbatim>\<open>d\<close> it computed, which is never negative. From the threshold on,
  and at \<^verbatim>\<open>Infinity\<close>, that confidence is exactly 0; at distance 0 it is exactly 1;
  from 0 to the threshold it lies between 0 and 1, within \<open>1 / 2 ^ 52\<close> of
  \<open>1 - d / THRESHOLD_DISTANCE\<close>. \<^verbatim>\<open>index.js\<close> returns it printed with three decimals;
  the two earlier revisions do not return it.
\<close>

theorem confidence_formula:
  assumes "T = THRESHOLD_DISTANCE_index \<or> T = THRESHOLD_DISTANCE_part"
  shows "(T \<le> dd \<longrightarrow> confidence_at T (Fin dd) = Fin 0)
       \<and> confidence_at T PInf = Fin 0
       \<and> confidence_at T (Fin 0) = Fin 1
       \<and> (0 \<le> dd \<and> dd \<le> T \<longrightarrow>
            (\<exists>c. confidence_at T (Fin dd) = Fin c \<and> 0 \<le> c \<and> c \<le> 1
               \<and> \<bar>c - (1 - dd / T)\<bar> \<le> 1 / 2 ^ 52))
       \<and> (pose_index kp = Inr li \<longrightarrow>
            confidence li = confidence_at THRESHOLD_DISTANCE_index (d_nose li)
            \<and> js_ge (d_nose li) (Fin 0)
            \<and> map_of (result_index li) ''confidence''
                = Some (JNum (parseFloat_toFixed 3 (confidence li))))
       \<and> (pose_part_000 kp = Inr lp \<or> pose_part_001 kp = Inr lp \<longrightarrow>
            confidenceDecimal lp = confidence_at THRESHOLD_DISTANCE_part (minDist lp)
            \<and> js_ge (minDist lp) (Fin 0)
            \<and> map_of (result_part lp) ''confidence'' = None)"
proof -
  have T: "0 < T"
    using assms by (auto simp: THRESHOLD_DISTANCE_index_def THRESHOLD_DISTANCE_part_def)
  have beyond: "confidence_at T (Fin dd) = Fin 0" if "T \<le> dd"
    using T that by (rule confidence_at_beyond)
  have near: "\<exists>c. confidence_at T (Fin dd) = Fin c \<and> 0 \<le> c \<and> c \<le> 1
               \<and> \<bar>c - (1 - dd / T)\<bar> \<le> 1 / 2 ^ 52" if "0 \<le> dd \<and> dd \<le> T"
    using T that by (intro confidence_at_near) simp_all
  have index: "confidence li = confidence_at THRESHOLD_DISTANCE_index (d_nose li)
      \<and> js_ge (d_nose li) (Fin 0)
      \<and> map_of (result_index li) ''confidence''
                = Some (JNum (parseFloat_toFixed 3 (confidence li)))"
    if "pose_index kp = Inr li"
    using pose_index_InrD [OF that] dist_helper_nonneg by auto
  have part: "confidenceDecimal lp = confidence_at THRESHOLD_DISTANCE_part (minDist lp)
      \<and> js_ge (minDist lp) (Fin 0)
      \<and> map_of (result_part lp) ''confidence'' = None"
    if "pose_part_000 kp = Inr lp \<or> pose_part_001 kp = Inr lp"
  proof -
    from that have "decide_part dist_helper kp = Inr lp"
      by (auto simp: pose_part_000_001 pose_part_001_def)
    from decide_part_InrD [OF this] decide_part_minDist [OF this] show ?thesis
      by simp
  qed
  show ?thesis
    using beyond near index part confidence_at_PInf [OF T] confidence_at_zero [OF T]
    by blast
qed

theorem confidence_formula_witness:
  "confidence_at THRESHOLD_DISTANCE_part (Fin 600) = Fin 0
   \<and> confidence_at THRESHOLD_DISTANCE_index (Fin 1500) = Fin 0
   \<and> (\<exists>c. confidence_at THRESHOLD_DISTANCE_index (Fin 1350) = Fin c \<and> 0 \<le> c \<and> c \<le> 1
         \<and> \<bar>c - 1 / 10\<bar> \<le> 1 / 2 ^ 52)
   \<and> (\<exists>li. pose_index (kp_right_at (381 / 4)) = Inr li \<and> d_nose li = Fin (381 / 4)
         \<and> confidence li = Fin (8435242102064939 / 2 ^ 53)
         \<and> map_of (result_index li) ''confidence'' = Some (JNum (fl (936 / 1000))))
   \<and> (\<exists>lp. pose_part_000 kp_spec_example = Inr lp \<and> pose_part_001 kp_spec_example = Inr lp
         \<and> minDist lp = Fin 5 \<and> confidenceDecimal lp = Fin (4462657812576219 / 2 ^ 52)
         \<and> map_of (result_part lp) ''confidence'' = None)"
proof -
  obtain li where li: "pose_index (kp_right_at (381 / 4)) = Inr li" "d_nose li = Fin (381 / 4)"
    by (simp add: pose_index_def kp_right_at_def js_or_def Let_def dist_helper_95_25)
  obtain lp where lp: "pose_part_001 kp_spec_example = Inr lp" "minDist lp = Fin 5"
    by (simp add: pose_part_001_def decide_part_def kp_spec_example_def Let_def
        dist_helper_3_4 dist_helper_6_8)
  have lp0: "pose_part_000 kp_spec_example = Inr lp"
    using lp by (simp add: pose_part_000_001)
  have a: "confidence_at THRESHOLD_DISTANCE_part (Fin 600) = Fin 0"
    using confidence_formula [of THRESHOLD_DISTANCE_part 600 kp_spec_example li lp]
    by (simp add: THRESHOLD_DISTANCE_part_def)
  have b: "confidence_at THRESHOLD_DISTANCE_index (Fin 1500) = Fin 0"
    using confidence_formula [of THRESHOLD_DISTANCE_index 1500 kp_spec_example li lp]
    by (simp add: THRESHOLD_DISTANCE_index_def)
  have c: "\<exists>c. confidence_at THRESHOLD_DISTANCE_index (Fin 1350) = Fin c \<and> 0 \<le> c \<and> c \<le> 1
         \<and> \<bar>c - 1 / 10\<bar> \<le> 1 / 2 ^ 52"
    using confidence_formula [of THRESHOLD_DISTANCE_index 1350 kp_spec_example li lp]
    by (simp add: THRESHOLD_DISTANCE_index_def)
  have d: "confidence li = Fin (8435242102064939 / 2 ^ 53)
      \<and> map_of (result_index li) ''confidence'' = Some (JNum (fl (936 / 1000)))"
    using confidence_formula [of THRESHOLD_DISTANCE_index 0 "kp_right_at (381 / 4)" li lp] li
    by (simp add: confidence_index_95_25)
  have e: "confidenceDecimal lp = Fin (4462657812576219 / 2 ^ 52)
      \<and> map_of (result_part lp) ''confidence'' = None"
    using confidence_formula [of THRESHOLD_DISTANCE_part 0 kp_spec_example li lp] lp
    by (simp add: confidence_part_5)
  show ?thesis
    using a b c d e li lp lp0 by blast
qed

text \<open>
  C2. In every object \<^verbatim>\<open>result\<close> a request builds, the field \<^verbatim>\<open>accepted\<close> is the
  comparison \<^verbatim>\<open>>=\<close> of the unrounded confidence with \<open>ACCEPTANCE_THRESHOLD\<close>, and of
  nothing else. At the distances 1350 of \<^verbatim>\<open>index.js\<close> and 495 of the earlier
  revisions the confidence is 0.09999999999999998, below the number \<^verbatim>\<open>0.1\<close>, and
  the request is not accepted.
\<close>

theorem accepted_iff_confidence:
  "(pose_index kp = Inr li \<longrightarrow>
      map_of (result_index li) ''accepted''
        = Some (JBool (js_ge (confidence li) ACCEPTANCE_THRESHOLD))
      \<and> confidence li = confidence_at THRESHOLD_DISTANCE_index (d_nose li))
   \<and> (pose_part_000 kp = Inr lp \<or> pose_part_001 kp = Inr lp \<longrightarrow>
      map_of (result_part lp) ''accepted''
        = Some (JBool (js_ge (confidenceDecimal lp) ACCEPTANCE_THRESHOLD))
      \<and> confidenceDecimal lp = confidence_at THRESHOLD_DISTANCE_part (minDist lp))"
proof -
  have index: "map_of (result_index li) ''accepted''
        = Some (JBool (js_ge (confidence li) ACCEPTANCE_THRESHOLD))
      \<and> confidence li = confidence_at THRESHOLD_DISTANCE_index (d_nose li)"
    if "pose_index kp = Inr li"
    using pose_index_InrD [OF that] by auto
  have part: "map_of (result_part lp) ''accepted''
        = Some (JBool (js_ge (confidenceDecimal lp) ACCEPTANCE_THRESHOLD))
      \<and> confidenceDecimal lp = confidence_at THRESHOLD_DISTANCE_part (minDist lp)"
    if "pose_part_000 kp = Inr lp \<or> pose_part_001 kp = Inr lp"
  proof -
    from that have "decide_part dist_helper kp = Inr lp"
      by (auto simp: pose_part_000_001 pose_part_001_def)
    from decide_part_InrD [OF this] show ?thesis
      by simp
  qed
  show ?thesis
    using index part by blast
qed

theorem accepted_iff_confidence_witness:
  "ACCEPTANCE_THRESHOLD = Fin (3602879701896397 / 2 ^ 55)
   \<and> (\<exists>li. pose_index (kp_right_at 1350) = Inr li \<and> d_nose li = Fin 1350
      \<and> confidence li = Fin (900719925474099 / 2 ^ 53)
      \<and> map_of (result_index li) ''accepted'' = Some (JBool False))
   \<and> (\<exists>li. pose_index kp_spec_example = Inr li \<and> d_nose li = Fin 10
      \<and> confidence li = Fin (8947151259709385 / 2 ^ 53)
      \<and> map_of (result_index li) ''accepted'' = Some (JBool True))
   \<and> (\<exists>lp. pose_part_000 (kp_left_at 495) = Inr lp \<and> pose_part_001 (kp_left_at 495) = Inr lp
      \<and> minDist lp = Fin 495
      \<and> confidenceDecimal lp = Fin (900719925474099 / 2 ^ 53)
      \<and> map_of (result_part lp) ''accepted'' = Some (JBool False))
   \<and> (\<exists>lp. pose_part_000 kp_nose_only = Inr lp \<and> pose_part_001 kp_nose_only = Inr lp
      \<and> confidenceDecimal lp = Fin 0
      \<and> map_of (result_part lp) ''accepted'' = Some (JBool False))"
proof -
  note a = acceptance_threshold_value
  obtain l1 where l1: "pose_index (kp_right_at 1350) = Inr l1" "d_nose l1 = Fin 1350"
    by (simp add: pose_index_def kp_right_at_def js_or_def Let_def dist_helper_1350)
  obtain l2 where l2: "pose_index kp_spec_example = Inr l2" "d_nose l2 = Fin 10"
    by (simp add: pose_index_def kp_spec_example_def js_or_def Let_def dist_helper_6_8)
  obtain p1 where p1: "pose_part_001 (kp_left_at 495) = Inr p1" "minDist p1 = Fin 495"
    by (simp add: pose_part_001_def decide_part_def kp_left_at_def Let_def dist_helper_495)
  obtain p2 where p2: "pose_part_001 kp_nose_only = Inr p2" "minDist p2 = PInf"
    by (simp add: pose_part_001_def decide_part_def kp_nose_only_def Let_def)
  have q1: "pose_part_000 (kp_left_at 495) = Inr p1" and q2: "pose_part_000 kp_nose_only = Inr p2"
    using p1 p2 by (simp_all add: pose_part_000_001)
  have c1: "confidence l1 = Fin (900719925474099 / 2 ^ 53)"
    using accepted_iff_confidence [of "kp_right_at 1350" l1 p1] l1
    by (simp add: confidence_index_1350)
  have a1: "map_of (result_index l1) ''accepted'' = Some (JBool False)"
    using accepted_iff_confidence [of "kp_right_at 1350" l1 p1] l1 c1
    by (simp add: a)
  have c2: "confidence l2 = Fin (8947151259709385 / 2 ^ 53)"
    using accepted_iff_confidence [of kp_spec_example l2 p1] l2
    by (simp add: confidence_index_10)
  have a2: "map_of (result_index l2) ''accepted'' = Some (JBool True)"
    using accepted_iff_confidence [of kp_spec_example l2 p1] l2 c2
    by (simp add: a)
  have c3: "confidenceDecimal p1 = Fin (900719925474099 / 2 ^ 53)"
    using accepted_iff_confidence [of "kp_left_at 495" l1 p1] p1
    by (simp add: confidence_part_495)
  have a3: "map_of (result_part p1) ''accepted'' = Some (JBool False)"
    using accepted_iff_confidence [of "kp_left_at 495" l1 p1] p1 c3
    by (simp add: a)
  have c4: "confidenceDecimal p2 = Fin 0"
    using accepted_iff_confidence [of kp_nose_only l1 p2] p2
    by (simp add: confidence_at_def THRESHOLD_DISTANCE_part_def)
  have a4: "map_of (result_part p2) ''accepted'' = Some (JBool False)"
    using accepted_iff_confidence [of kp_nose_only l1 p2] p2 c4
    by (simp add: a)
  show ?thesis
    using a l1 l2 p1 p2 q1 q2 c1 a1 c2 a2 c3 a3 c4 a4 by blast
qed

text \<open>
  C3. Without a nose every revision answers \<open>NoseNotDetected\<close>, whatever the wrists
  are, and builds no result.
\<close>

theorem nose_absent_rejected:
  assumes "kp ''nose'' = None"
  shows "pose_part_000 kp = Inl NoseNotDetected
       \<and> pose_part_001 kp = Inl NoseNotDetected
       \<and> pose_index kp = Inl NoseNotDetected"
  using assms
  by (simp add: pose_part_000_def pose_part_001_def decide_part_def pose_index_def)

theorem nose_absent_rejected_witness:
  "kp_wrists_only ''nose'' = None
   \<and> kp_wrists_only ''leftWrist'' \<noteq> None \<and> kp_wrists_only ''rightWrist'' \<noteq> None
   \<and> pose_part_000 kp_wrists_only = Inl NoseNotDetected
   \<and> pose_part_001 kp_wrists_only = Inl NoseNotDetected
   \<and> pose_index kp_wrists_only = Inl NoseNotDetected
   \<and> pose_index Map.empty = Inl NoseNotDetected"
proof -
  have h: "kp_wrists_only ''nose'' = None"
    by (simp add: kp_wrists_only_def)
  have e: "(Map.empty :: kp) ''nose'' = None"
    by simp
  show ?thesis
    using h e nose_absent_rejected [of kp_wrists_only] nose_absent_rejected [of Map.empty]
    by (simp add: kp_wrists_only_def)
qed

text \<open>
  C4, as stated, selects the wrist whose Euclidean distance to the nose is smaller. With
  the nose at \<open>(0,0)\<close>, the left wrist at \<open>(100, 2 ^ -24)\<close> and the right wrist at
  \<open>(100, 0)\<close> the right wrist is strictly nearer, and both earlier revisions answer
  \<open>leftWrist\<close>: the two computed distances are both 100.
\<close>

theorem near_tie_selects_left:
  "kp_near_tie ''nose'' = Some \<lparr>pos_x = 0, pos_y = 0\<rparr>
   \<and> kp_near_tie ''leftWrist'' = Some \<lparr>pos_x = 100, pos_y = 1 / 2 ^ 24\<rparr>
   \<and> kp_near_tie ''rightWrist'' = Some \<lparr>pos_x = 100, pos_y = 0\<rparr>
   \<and> true_distance \<lparr>pos_x = 100, pos_y = 0\<rparr> \<lparr>pos_x = 0, pos_y = 0\<rparr>
       < true_distance \<lparr>pos_x = 100, pos_y = 1 / 2 ^ 24\<rparr> \<lparr>pos_x = 0, pos_y = 0\<rparr>
   \<and> reply_field ''closestHand'' (reply_part_000 kp_near_tie) = Some (JStr ''leftWrist'')
   \<and> reply_field ''closestHand'' (reply_part_001 kp_near_tie) = Some (JStr ''leftWrist'')"
proof -
  have k: "kp_near_tie ''nose'' = Some \<lparr>pos_x = 0, pos_y = 0\<rparr>"
    "kp_near_tie ''leftWrist'' = Some \<lparr>pos_x = 100, pos_y = 1 / 2 ^ 24\<rparr>"
    "kp_near_tie ''rightWrist'' = Some \<lparr>pos_x = 100, pos_y = 0\<rparr>"
    by (simp_all add: kp_near_tie_def)
  have t: "true_distance \<lparr>pos_x = 100, pos_y = 0\<rparr> \<lparr>pos_x = 0, pos_y = 0\<rparr>
       < true_distance \<lparr>pos_x = 100, pos_y = 1 / 2 ^ 24\<rparr> \<lparr>pos_x = 0, pos_y = 0\<rparr>"
    by (simp add: true_distance_def) (rule real_less_rsqrt, simp)
  from decide_part_total [of kp_near_tie _ dist_helper] k(1) obtain lp
    where lp: "decide_part dist_helper kp_near_tie = Inr lp" by blast
  from decide_part_InrD [OF lp]
  have l: "distLeft lp = Fin 100" and r: "distRight lp = Fin 100"
    and m: "minDist lp = js_min (distLeft lp) (distRight lp)"
    and h: "closestHand lp = (if js_seq (minDist lp) (distLeft lp) then ''leftWrist'' else ''rightWrist'')"
    and res: "map_of (result_part lp) ''closestHand'' = Some (JStr (closestHand lp))"
    unfolding k by (simp_all only: option.case option.inject dist_helper_near_100 dist_helper_100
        simp_thms ex_simps, simp_all)
  have "closestHand lp = ''leftWrist''"
    using h l r m by simp
  then have "reply_field ''closestHand'' (reply_part_001 kp_near_tie) = Some (JStr ''leftWrist'')"
    using lp res by (simp add: reply_field_def reply_part_001_def pose_part_001_def)
  moreover from this
  have "reply_field ''closestHand'' (reply_part_000 kp_near_tie) = Some (JStr ''leftWrist'')"
    by (simp add: reply_part_000_def reply_part_001_def pose_part_000_001)
  ultimately show ?thesis
    using k t by blast
qed

text \<open>
  C4, amended. With the nose and both wrists, the two earlier revisions select the wrist
  whose computed distance to the nose (the binary64 result of the distance helper) is
  smaller, and the left wrist when the two computed distances are equal.
\<close>

theorem nearest_of_both_selection:
  assumes "kp ''nose'' = Some n"
    and "kp ''leftWrist'' = Some lw"
    and "kp ''rightWrist'' = Some rw"
  shows "\<exists>lp. pose_part_000 kp = Inr lp \<and> pose_part_001 kp = Inr lp
       \<and> distLeft lp = dist_helper lw n \<and> distRight lp = dist_helper rw n
       \<and> minDist lp =
           (if js_le (dist_helper lw n) (dist_helper rw n)
            then dist_helper lw n else dist_helper rw n)
       \<and> closestHand lp =
           (if js_le (dist_helper lw n) (dist_helper rw n)
            then ''leftWrist'' else ''rightWrist'')
       \<and> map_of (result_part lp) ''closestHand'' = Some (JStr (closestHand lp))"
proof -
  from decide_part_total [of kp n dist_helper] assms(1) obtain lp
    where lp: "decide_part dist_helper kp = Inr lp" by blast
  from decide_part_InrD [OF lp] assms
  have l: "distLeft lp = dist_helper lw n"
    and r: "distRight lp = dist_helper rw n"
    and m: "minDist lp = js_min (distLeft lp) (distRight lp)"
    and h: "closestHand lp = (if js_seq (minDist lp) (distLeft lp) then ''leftWrist'' else ''rightWrist'')"
    and res: "map_of (result_part lp) ''closestHand'' = Some (JStr (closestHand lp))"
    by auto
  note mn = js_min_nonneg [OF dist_helper_nonneg [of lw n] dist_helper_nonneg [of rw n]]
  have m': "minDist lp =
           (if js_le (dist_helper lw n) (dist_helper rw n)
            then dist_helper lw n else dist_helper rw n)"
    using l r m mn(1) by simp
  have h': "closestHand lp =
           (if js_le (dist_helper lw n) (dist_helper rw n)
            then ''leftWrist'' else ''rightWrist'')"
    using h l r m mn(2) by simp
  show ?thesis
    using lp l r m' h' res by (auto simp: pose_part_000_001 pose_part_001_def)
qed

theorem nearest_of_both_selection_witness:
  "(\<exists>lp. pose_part_000 kp_tie = Inr lp \<and> pose_part_001 kp_tie = Inr lp
      \<and> distLeft lp = Fin 5 \<and> distRight lp = Fin 5 \<and> minDist lp = Fin 5
      \<and> closestHand lp = ''leftWrist'')
   \<and> (\<exists>lp. pose_part_000 kp_right_nearer = Inr lp \<and> pose_part_001 kp_right_nearer = Inr lp
      \<and> distLeft lp = Fin 10 \<and> distRight lp = Fin 5 \<and> minDist lp = Fin 5
      \<and> closestHand lp = ''rightWrist'')
   \<and> (\<exists>lp. pose_part_000 kp_near_tie = Inr lp \<and> pose_part_001 kp_near_tie = Inr lp
      \<and> distLeft lp = Fin 100 \<and> distRight lp = Fin 100 \<and> minDist lp = Fin 100
      \<and> closestHand lp = ''leftWrist'')
   \<and> (\<exists>lp. pose_part_000 kp_decimal_pair = Inr lp \<and> pose_part_001 kp_decimal_pair = Inr lp
      \<and> distLeft lp = Fin 5 \<and> distRight lp = Fin (5629499534213119 / 2 ^ 50)
      \<and> minDist lp = Fin (5629499534213119 / 2 ^ 50)
      \<and> closestHand lp = ''rightWrist'')"
proof -
  have p: "kp_decimal_pair ''nose''
      = Some \<lparr>pos_x = 5854679515581645 / 2 ^ 50, pos_y = 2476979795053773 / 2 ^ 49\<rparr>"
    "kp_decimal_pair ''leftWrist''
      = Some \<lparr>pos_x = 2589569785738035 / 2 ^ 48, pos_y = 3152519739159347 / 2 ^ 51\<rparr>"
    "kp_decimal_pair ''rightWrist''
      = Some \<lparr>pos_x = 2308094809027379 / 2 ^ 48, pos_y = 3602879701896397 / 2 ^ 53\<rparr>"
    by (simp_all add: kp_decimal_pair_def)
  have t: "kp_tie ''nose'' = Some \<lparr>pos_x = 0, pos_y = 0\<rparr>"
    "kp_tie ''leftWrist'' = Some \<lparr>pos_x = 3, pos_y = 4\<rparr>"
    "kp_tie ''rightWrist'' = Some \<lparr>pos_x = 4, pos_y = 3\<rparr>"
    by (simp_all add: kp_tie_def)
  have r: "kp_right_nearer ''nose'' = Some \<lparr>pos_x = 0, pos_y = 0\<rparr>"
    "kp_right_nearer ''leftWrist'' = Some \<lparr>pos_x = 6, pos_y = 8\<rparr>"
    "kp_right_nearer ''rightWrist'' = Some \<lparr>pos_x = 3, pos_y = 4\<rparr>"
    by (simp_all add: kp_right_nearer_def)
  have k: "kp_near_tie ''nose'' = Some \<lparr>pos_x = 0, pos_y = 0\<rparr>"
    "kp_near_tie ''leftWrist'' = Some \<lparr>pos_x = 100, pos_y = 1 / 2 ^ 24\<rparr>"
    "kp_near_tie ''rightWrist'' = Some \<lparr>pos_x = 100, pos_y = 0\<rparr>"
    by (simp_all add: kp_near_tie_def)
  from nearest_of_both_selection [of kp_tie, OF t]
  have a: "\<exists>lp. pose_part_000 kp_tie = Inr lp \<and> pose_part_001 kp_tie = Inr lp
      \<and> distLeft lp = Fin 5 \<and> distRight lp = Fin 5 \<and> minDist lp = Fin 5
      \<and> closestHand lp = ''leftWrist''"
    unfolding dist_helper_3_4 dist_helper_4_3 by (auto simp: js_le_def)
  from nearest_of_both_selection [of kp_right_nearer, OF r]
  have b: "\<exists>lp. pose_part_000 kp_right_nearer = Inr lp \<and> pose_part_001 kp_right_nearer = Inr lp
      \<and> distLeft lp = Fin 10 \<and> distRight lp = Fin 5 \<and> minDist lp = Fin 5
      \<and> closestHand lp = ''rightWrist''"
    unfolding dist_helper_3_4 dist_helper_6_8 by (auto simp: js_le_def)
  from nearest_of_both_selection [of kp_near_tie, OF k]
  have c: "\<exists>lp. pose_part_000 kp_near_tie = Inr lp \<and> pose_part_001 kp_near_tie = Inr lp
      \<and> distLeft lp = Fin 100 \<and> distRight lp = Fin 100 \<and> minDist lp = Fin 100
      \<and> closestHand lp = ''leftWrist''"
    unfolding dist_helper_near_100 dist_helper_100 by (auto simp: js_le_def)
  from nearest_of_both_selection [of kp_decimal_pair, OF p]
  have d: "\<exists>lp. pose_part_000 kp_decimal_pair = Inr lp \<and> pose_part_001 kp_decimal_pair = Inr lp
      \<and> distLeft lp = Fin 5 \<and> distRight lp = Fin (5629499534213119 / 2 ^ 50)
      \<and> minDist lp = Fin (5629499534213119 / 2 ^ 50)
      \<and> closestHand lp = ''rightWrist''"
    unfolding dist_helper_pair_left dist_helper_pair_right by (auto simp: js_le_def)
  show ?thesis
    using a b c d by blast
qed

text \<open>
  C5, as stated, reports the distance from the selected wrist to the nose. With the nose
  at \<open>(0,0)\<close> and the right wrist at \<open>(0.125, 0)\<close> the distance is 0.125, exactly and
  as computed, and \<^verbatim>\<open>index.js\<close> reports 0.13.
\<close>

theorem reported_distance_is_rounded:
  "kp_right_at (1 / 8) ''nose'' = Some \<lparr>pos_x = 0, pos_y = 0\<rparr>
   \<and> kp_right_at (1 / 8) ''rightWrist'' = Some \<lparr>pos_x = 1 / 8, pos_y = 0\<rparr>
   \<and> true_distance \<lparr>pos_x = 1 / 8, pos_y = 0\<rparr> \<lparr>pos_x = 0, pos_y = 0\<rparr> = 1 / 8
   \<and> dist_helper \<lparr>pos_x = 1 / 8, pos_y = 0\<rparr> \<lparr>pos_x = 0, pos_y = 0\<rparr> = Fin (1 / 8)
   \<and> reply_field ''distance'' (reply_index (kp_right_at (1 / 8))) = Some (JNum (fl (13 / 100)))
   \<and> fl (13 / 100) \<noteq> Fin (1 / 8)"
proof -
  have k: "kp_right_at (1 / 8) ''nose'' = Some \<lparr>pos_x = 0, pos_y = 0\<rparr>"
    "kp_right_at (1 / 8) ''rightWrist'' = Some \<lparr>pos_x = 1 / 8, pos_y = 0\<rparr>"
    by (simp_all add: kp_right_at_def)
  have t: "true_distance \<lparr>pos_x = 1 / 8, pos_y = 0\<rparr> \<lparr>pos_x = 0, pos_y = 0\<rparr> = 1 / 8"
    by (simp add: true_distance_def)
  obtain li where li: "pose_index (kp_right_at (1 / 8)) = Inr li" "d_nose li = Fin (1 / 8)"
    by (simp add: pose_index_def kp_right_at_def js_or_def Let_def dist_helper_eighth)
  from pose_index_InrD [OF li(1)]
  have "map_of (result_index li) ''distance'' = Some (JNum (parseFloat_toFixed 2 (d_nose li)))"
    by auto
  then have "reply_field ''distance'' (reply_index (kp_right_at (1 / 8)))
      = Some (JNum (fl (13 / 100)))"
    by (simp add: reply_field_def reply_index_def li)
  moreover have "fl (13 / 100) \<noteq> Fin (1 / 8)"
    using fl_0_13 by simp
  ultimately show ?thesis
    using k t dist_helper_eighth by blast
qed

text \<open>
  C5, amended. With the nose and a wrist, \<^verbatim>\<open>index.js\<close> takes the right wrist whenever it
  is present, however far it is, and the left wrist only when the right one is absent.
  The distance \<^verbatim>\<open>d\<close> is the computed distance from that wrist to the nose, and the
  field \<^verbatim>\<open>distance\<close> of the result is \<^verbatim>\<open>d\<close> printed with two decimals and read back.
\<close>

theorem right_priority_selection:
  assumes "kp ''nose'' = Some n"
  shows "(kp ''rightWrist'' = Some rw \<longrightarrow>
           (\<exists>li. pose_index kp = Inr li \<and> nearestHand li = rw
              \<and> d_nose li = dist_helper rw n
              \<and> map_of (result_index li) ''distance''
                  = Some (JNum (parseFloat_toFixed 2 (dist_helper rw n)))))
       \<and> (kp ''rightWrist'' = None \<and> kp ''leftWrist'' = Some lw \<longrightarrow>
           (\<exists>li. pose_index kp = Inr li \<and> nearestHand li = lw
              \<and> d_nose li = dist_helper lw n
              \<and> map_of (result_index li) ''distance''
                  = Some (JNum (parseFloat_toFixed 2 (dist_helper lw n)))))"
  using assms
  by (simp add: pose_index_def js_or_def Let_def)

theorem right_priority_selection_witness:
  "(\<exists>li. pose_index kp_spec_example = Inr li
      \<and> nearestHand li = \<lparr>pos_x = 6, pos_y = 8\<rparr> \<and> d_nose li = Fin 10
      \<and> map_of (result_index li) ''distance'' = Some (JNum (Fin 10)))
   \<and> (\<exists>li. pose_index kp_left_only = Inr li
      \<and> nearestHand li = \<lparr>pos_x = 3, pos_y = 4\<rparr> \<and> d_nose li = Fin 5
      \<and> map_of (result_index li) ''distance'' = Some (JNum (Fin 5)))
   \<and> (\<exists>li. pose_index kp_decimal = Inr li
      \<and> nearestHand li = \<lparr>pos_x = 1567309844929577 / 2 ^ 42, pos_y = 0\<rparr>
      \<and> d_nose li = Fin (2254130778336133 / 2 ^ 43)
      \<and> map_of (result_index li) ''distance'' = Some (JNum (fl (25626 / 100))))"
proof -
  have s: "kp_spec_example ''nose'' = Some \<lparr>pos_x = 0, pos_y = 0\<rparr>"
    "kp_spec_example ''rightWrist'' = Some \<lparr>pos_x = 6, pos_y = 8\<rparr>"
    by (simp_all add: kp_spec_example_def)
  have l: "kp_left_only ''nose'' = Some \<lparr>pos_x = 0, pos_y = 0\<rparr>"
    "kp_left_only ''rightWrist'' = None"
    "kp_left_only ''leftWrist'' = Some \<lparr>pos_x = 3, pos_y = 4\<rparr>"
    by (simp_all add: kp_left_only_def)
  have d: "kp_decimal ''nose'' = Some \<lparr>pos_x = 3521955646092083 / 2 ^ 45, pos_y = 0\<rparr>"
    "kp_decimal ''rightWrist'' = Some \<lparr>pos_x = 1567309844929577 / 2 ^ 42, pos_y = 0\<rparr>"
    by (simp_all add: kp_decimal_def)
  have f10: "parseFloat_toFixed 2 (Fin 10) = Fin 10"
    using fl_int [of 10] by simp
  have f5: "parseFloat_toFixed 2 (Fin 5) = Fin 5"
    using fl_int [of 5] by simp
  have fd: "parseFloat_toFixed 2 (Fin (2254130778336133 / 2 ^ 43)) = fl (25626 / 100)"
    by simp
  from right_priority_selection [of kp_spec_example _ "\<lparr>pos_x = 6, pos_y = 8\<rparr>", OF s(1)] s(2)
  have a: "\<exists>li. pose_index kp_spec_example = Inr li
      \<and> nearestHand li = \<lparr>pos_x = 6, pos_y = 8\<rparr> \<and> d_nose li = Fin 10
      \<and> map_of (result_index li) ''distance'' = Some (JNum (Fin 10))"
    unfolding dist_helper_6_8 f10 by blast
  from right_priority_selection [of kp_left_only _ _ "\<lparr>pos_x = 3, pos_y = 4\<rparr>", OF l(1)] l(2,3)
  have b: "\<exists>li. pose_index kp_left_only = Inr li
      \<and> nearestHand li = \<lparr>pos_x = 3, pos_y = 4\<rparr> \<and> d_nose li = Fin 5
      \<and> map_of (result_index li) ''distance'' = Some (JNum (Fin 5))"
    unfolding dist_helper_3_4 f5 by blast
  from right_priority_selection
    [of kp_decimal _ "\<lparr>pos_x = 1567309844929577 / 2 ^ 42, pos_y = 0\<rparr>", OF d(1)] d(2)
  have c: "\<exists>li. pose_index kp_decimal = Inr li
      \<and> nearestHand li = \<lparr>pos_x = 1567309844929577 / 2 ^ 42, pos_y = 0\<rparr>
      \<and> d_nose li = Fin (2254130778336133 / 2 ^ 43)
      \<and> map_of (result_index li) ''distance'' = Some (JNum (fl (25626 / 100)))"
    unfolding dist_helper_decimal fd by blast
  show ?thesis
    using a b c by blast
qed

text \<open>
  C6. With the nose and neither wrist, \<^verbatim>\<open>index.js\<close> answers \<open>NoWristDetected\<close>, an
  error other than \<open>NoseNotDetected\<close>, with a message of its own.
\<close>

theorem no_wrist_rejected:
  assumes "kp ''nose'' = Some n"
    and "kp ''leftWrist'' = None"
    and "kp ''rightWrist'' = None"
  shows "pose_index kp = Inl NoWristDetected
       \<and> NoWristDetected \<noteq> NoseNotDetected
       \<and> error_message NoWristDetected \<noteq> error_message NoseNotDetected"
  using assms by (simp add: pose_index_def)

theorem no_wrist_rejected_witness:
  "kp_nose_only ''nose'' = Some \<lparr>pos_x = 0, pos_y = 0\<rparr>
   \<and> kp_nose_only ''leftWrist'' = None \<and> kp_nose_only ''rightWrist'' = None
   \<and> pose_index kp_nose_only = Inl NoWristDetected"
proof -
  have h: "kp_nose_only ''nose'' = Some \<lparr>pos_x = 0, pos_y = 0\<rparr>"
    "kp_nose_only ''leftWrist'' = None" "kp_nose_only ''rightWrist'' = None"
    by (simp_all add: kp_nose_only_def)
  from no_wrist_rejected [of kp_nose_only, OF h] h show ?thesis
    by simp
qed

text \<open>
  C7, as stated, asks for a confidence of 0.991 in the answer. The object the two
  nearest-of-both revisions send has the fields \<^verbatim>\<open>closestHand\<close>, \<^verbatim>\<open>distance\<close> and
  \<^verbatim>\<open>accepted\<close> only.
\<close>

theorem spec_example_no_confidence_field:
  "reply_field ''confidence'' (reply_part_000 kp_spec_example) \<noteq> Some (JNum (Fin (991 / 1000)))
   \<and> reply_field ''confidence'' (reply_part_001 kp_spec_example) \<noteq> Some (JNum (Fin (991 / 1000)))
   \<and> reply_field ''confidence'' (reply_part_000 kp_spec_example) = None
   \<and> reply_field ''confidence'' (reply_part_001 kp_spec_example) = None"
  by (simp add: reply_field_def reply_part_000_def reply_part_001_def pose_part_000_001
      pose_part_001_def decide_part_def kp_spec_example_def Let_def)

text \<open>
  C7, amended. For nose \<open>(0,0)\<close>, left wrist \<open>(3,4)\<close> and right wrist \<open>(6,8)\<close> the
  two nearest-of-both revisions compute the distances 5 and 10, select the left wrist,
  compute the confidence 0.990909090909091 (the binary64 value of \<^verbatim>\<open>1 - 5 / 550\<close>,
  within \<open>1 / 2 ^ 52\<close> of the real), which is 0.991 to three decimals, and send
  \<^verbatim>\<open>closestHand\<close> \<open>leftWrist\<close>, \<^verbatim>\<open>distance\<close> 5 and \<^verbatim>\<open>accepted\<close> true; the
  confidence is not sent.
\<close>

theorem spec_example_nearest_of_both:
  "pose_part_000 kp_spec_example =
     Inr \<lparr>distLeft = Fin 5, distRight = Fin 10, minDist = Fin 5,
          closestHand = ''leftWrist'',
          confidenceDecimal = Fin (4462657812576219 / 2 ^ 52),
          result_part = [(''closestHand'', JStr ''leftWrist''),
                         (''distance'', JNum (Fin 5)),
                         (''accepted'', JBool True)]\<rparr>
   \<and> pose_part_001 kp_spec_example = pose_part_000 kp_spec_example
   \<and> \<bar>4462657812576219 / 2 ^ 52 - (1 - 5 / 550 :: real)\<bar> \<le> 1 / 2 ^ 52
   \<and> parseFloat_toFixed 3 (Fin (4462657812576219 / 2 ^ 52)) = fl (991 / 1000)
   \<and> reply_part_000 kp_spec_example =
       Inr [(''closestHand'', JStr ''leftWrist''), (''distance'', JNum (Fin 5)),
            (''accepted'', JBool True)]
   \<and> reply_part_001 kp_spec_example = reply_part_000 kp_spec_example"
proof -
  have f5: "parseFloat_toFixed 2 (Fin 5) = Fin 5"
    using fl_int [of 5] by simp
  have p: "pose_part_001 kp_spec_example =
     Inr \<lparr>distLeft = Fin 5, distRight = Fin 10, minDist = Fin 5,
          closestHand = ''leftWrist'',
          confidenceDecimal = Fin (4462657812576219 / 2 ^ 52),
          result_part = [(''closestHand'', JStr ''leftWrist''),
                         (''distance'', JNum (Fin 5)),
                         (''accepted'', JBool True)]\<rparr>"
    using f5
    by (simp add: pose_part_001_def decide_part_def kp_spec_example_def Let_def
        dist_helper_3_4 dist_helper_6_8 confidence_part_5 acceptance_threshold_value)
  have e: "\<bar>4462657812576219 / 2 ^ 52 - (1 - 5 / 550 :: real)\<bar> \<le> 1 / 2 ^ 52"
    by simp
  have r: "parseFloat_toFixed 3 (Fin (4462657812576219 / 2 ^ 52)) = fl (991 / 1000)"
    by simp
  show ?thesis
    using p e r by (simp add: pose_part_000_001 reply_part_000_def reply_part_001_def)
qed

text \<open>
  C8. For a positive threshold the confidence does not increase with the distance:
  whenever \<^verbatim>\<open>d1 <= d2\<close> holds, the confidence at \<^verbatim>\<open>d1\<close> is \<^verbatim>\<open>>=\<close> the
  confidence at \<^verbatim>\<open>d2\<close>, the infinities included.
\<close>

theorem confidence_antitone:
  assumes "0 < T" and "js_le d1 d2"
  shows "js_ge (confidence_at T d1) (confidence_at T d2)"
proof -
  have "js_le (js_div d1 (Fin T)) (js_div d2 (Fin T))"
    using assms by (rule js_div_mono)
  then have "js_le (js_sub (Fin 1) (js_div d2 (Fin T))) (js_sub (Fin 1) (js_div d1 (Fin T)))"
    by (rule js_sub_one_antimono)
  then have "js_le (confidence_at T d2) (confidence_at T d1)"
    unfolding confidence_at_def by (rule js_max_zero_mono)
  then show ?thesis
    by (simp add: js_le_def)
qed

theorem confidence_antitone_witness:
  "js_le (Fin 5) (Fin 10) \<and> js_le (Fin 10) PInf
   \<and> js_ge (confidence_at THRESHOLD_DISTANCE_part (Fin 5))
            (confidence_at THRESHOLD_DISTANCE_part (Fin 10))
   \<and> js_ge (confidence_at THRESHOLD_DISTANCE_index (Fin 10))
            (confidence_at THRESHOLD_DISTANCE_index PInf)"
proof -
  have p: "0 < THRESHOLD_DISTANCE_part" and i: "0 < THRESHOLD_DISTANCE_index"
    by (simp_all add: THRESHOLD_DISTANCE_part_def THRESHOLD_DISTANCE_index_def)
  have a: "js_le (Fin 5) (Fin 10)" and b: "js_le (Fin 10) PInf"
    by (simp_all add: js_le_def)
  show ?thesis
    using a b confidence_antitone [OF p a] confidence_antitone [OF i b] by simp
qed

text \<open>
  C9. The object \<^verbatim>\<open>kp\<close> that \<^verbatim>\<open>index.js\<close> builds holds exactly the parts among
  nose, leftWrist and rightWrist that some keypoint reports with a score of at least
  0.5. When every part is reported once, as the estimator does, a wanted keypoint with
  score at least 0.5, exactly 0.5 included, is stored with its position, and one with a
  lower score is absent.
\<close>

theorem score_filter_keeps_half:
  "dom (kp_index keypoints) =
     {p \<in> set wanted_parts. \<exists>k\<in>set keypoints. part k = p \<and> 1 / 2 \<le> score k}
   \<and> (distinct (map part keypoints) \<longrightarrow>
        (\<forall>k\<in>set keypoints. part k \<in> set wanted_parts \<longrightarrow>
           kp_index keypoints (part k) = (if 1 / 2 \<le> score k then Some (position k) else None)))"
proof -
  have d: "dom (kp_index keypoints) =
     {p \<in> set wanted_parts. \<exists>k\<in>set keypoints. part k = p \<and> 1 / 2 \<le> score k}"
    by (simp add: kp_index_def dom_collect_scored)
  have v: "kp_index keypoints (part k) = (if 1 / 2 \<le> score k then Some (position k) else None)"
    if dist: "distinct (map part keypoints)" and k: "k \<in> set keypoints"
      and w: "part k \<in> set wanted_parts" for k
  proof (cases "1 / 2 \<le> score k")
    case True
    then show ?thesis
      using collect_scored_distinct [OF dist k w] by (simp add: kp_index_def)
  next
    case False
    have "q = k" if "q \<in> set keypoints" "part q = part k" for q
      using that k dist by (meson distinct_map inj_onD)
    then have "part k \<notin> dom (kp_index keypoints)"
      using False unfolding d by auto
    then show ?thesis
      using False by (simp add: domIff)
  qed
  show ?thesis
    using d v by blast
qed

theorem score_filter_keeps_half_witness:
  "distinct (map part keypoints_example)
   \<and> dom (kp_index keypoints_example) = {''nose'', ''rightWrist''}
   \<and> kp_index keypoints_example ''nose'' = Some \<lparr>pos_x = 0, pos_y = 0\<rparr>
   \<and> kp_index keypoints_example ''leftWrist'' = None
   \<and> kp_index keypoints_example ''rightWrist'' = Some \<lparr>pos_x = 6, pos_y = 8\<rparr>"
proof -
  have dist: "distinct (map part keypoints_example)"
    by (simp add: keypoints_example_def)
  have "dom (kp_index keypoints_example) = {''nose'', ''rightWrist''}"
    using score_filter_keeps_half [of keypoints_example]
    by (auto simp: keypoints_example_def wanted_parts_def)
  moreover have "kp_index keypoints_example ''nose'' = Some \<lparr>pos_x = 0, pos_y = 0\<rparr>"
    "kp_index keypoints_example ''leftWrist'' = None"
    "kp_index keypoints_example ''rightWrist'' = Some \<lparr>pos_x = 6, pos_y = 8\<rparr>"
    using score_filter_keeps_half [of keypoints_example] dist
    by (simp_all add: keypoints_example_def wanted_parts_def)
  ultimately show ?thesis
    using dist by blast
qed

text \<open>
  C10, as stated, asks for a confidence of 0 in the answer. The object the two earlier
  revisions send has no field \<^verbatim>\<open>confidence\<close>.
\<close>

theorem nose_only_no_confidence_field:
  "reply_field ''confidence'' (reply_part_000 kp_nose_only) \<noteq> Some (JNum (Fin 0))
   \<and> reply_field ''confidence'' (reply_part_001 kp_nose_only) \<noteq> Some (JNum (Fin 0))"
  by (simp add: reply_field_def reply_part_000_def reply_part_001_def pose_part_000_001
      pose_part_001_def decide_part_def kp_nose_only_def Let_def)

text \<open>
  C10, amended. With the nose and neither wrist, the two revisions without a wrist check
  do not fail: both distances are \<^verbatim>\<open>Infinity\<close>, the comparison selects the left label,
  the confidence computed is 0, and the object built has \<^verbatim>\<open>closestHand\<close>
  \<open>leftWrist\<close>, \<^verbatim>\<open>distance\<close> \<^verbatim>\<open>Infinity\<close> and \<^verbatim>\<open>accepted\<close> false; it has no
  field \<^verbatim>\<open>confidence\<close>. This is the object before \<^verbatim>\<open>res.json\<close> serialises it.
\<close>

theorem nose_only_judgment:
  assumes "kp ''nose'' = Some n"
    and "kp ''leftWrist'' = None"
    and "kp ''rightWrist'' = None"
  shows "pose_part_000 kp =
     Inr \<lparr>distLeft = PInf, distRight = PInf, minDist = PInf,
          closestHand = ''leftWrist'', confidenceDecimal = Fin 0,
          result_part = [(''closestHand'', JStr ''leftWrist''),
                         (''distance'', JNum PInf),
                         (''accepted'', JBool False)]\<rparr>
   \<and> pose_part_001 kp = pose_part_000 kp
   \<and> reply_part_000 kp =
       Inr [(''closestHand'', JStr ''leftWrist''), (''distance'', JNum PInf),
            (''accepted'', JBool False)]
   \<and> reply_part_001 kp = reply_part_000 kp
   \<and> reply_field ''confidence'' (reply_part_000 kp) = None"
proof -
  have c: "confidence_at THRESHOLD_DISTANCE_part PInf = Fin 0"
    by (simp add: confidence_at_def THRESHOLD_DISTANCE_part_def)
  have a: "ACCEPTANCE_THRESHOLD = Fin (3602879701896397 / 2 ^ 55)"
    unfolding ACCEPTANCE_THRESHOLD_def
    using fl_evalI [of "- 4" "1 / 10" 7205759403792794]
    by (simp add: pow2_def round_half_even_def)
  have p: "pose_part_001 kp =
     Inr \<lparr>distLeft = PInf, distRight = PInf, minDist = PInf,
          closestHand = ''leftWrist'', confidenceDecimal = Fin 0,
          result_part = [(''closestHand'', JStr ''leftWrist''),
                         (''distance'', JNum PInf),
                         (''accepted'', JBool False)]\<rparr>"
    using assms
    by (simp add: pose_part_001_def decide_part_def Let_def c a)
  show ?thesis
    using p by (simp add: pose_part_000_001 reply_part_000_def reply_part_001_def reply_field_def)
qed

theorem nose_only_judgment_witness:
  "kp_nose_only ''nose'' = Some \<lparr>pos_x = 0, pos_y = 0\<rparr>
   \<and> kp_nose_only ''leftWrist'' = None \<and> kp_nose_only ''rightWrist'' = None
   \<and> reply_part_001 kp_nose_only =
       Inr [(''closestHand'', JStr ''leftWrist''), (''distance'', JNum PInf),
            (''accepted'', JBool False)]"
proof -
  have h: "kp_nose_only ''nose'' = Some \<lparr>pos_x = 0, pos_y = 0\<rparr>"
    "kp_nose_only ''leftWrist'' = None" "kp_nose_only ''rightWrist'' = None"
    by (simp_all add: kp_nose_only_def)
  from nose_only_judgment [of kp_nose_only, OF h] h show ?thesis
    by simp
qed

end
